theory Spec2Isabelle
  imports Complex_Main
begin

section \<open>Values, errors and arrays\<close>

text \<open>
  The module \<^verbatim>\<open>mythredds.py\<close> subsets gridded remote datasets.  Python exceptions are
  values of \<open>error\<close>; a function that can raise returns \<open>error + 'a\<close> (\<open>Inl\<close> the
  exception).  A function that can retry for ever returns an \<open>option\<close> on top of that:
  \<open>None\<close> is "does not return".
\<close>

datatype error =
    TypeError | ValueError | IndexError | KeyError | AttributeError
  | UnboundLocalError | OSError | Exception string

definition ebind :: "error + 'a \<Rightarrow> ('a \<Rightarrow> error + 'b) \<Rightarrow> error + 'b" where
  "ebind m f = (case m of Inl e \<Rightarrow> Inl e | Inr x \<Rightarrow> f x)"

text \<open>Calendar timestamps (\<^verbatim>\<open>datetime\<close>) are counted in microseconds since the epoch.\<close>

type_synonym datetime = int

text \<open>
  A numpy array of floats by its rank; the values are reals (rounding is not modelled).
  An array with no rows keeps no record of its inner extents.
\<close>

datatype ndarray =
    A1 "real list"
  | A2 "real list list"
  | A3 "real list list list"
  | A4 "real list list list list"

fun ndim :: "ndarray \<Rightarrow> nat" where
  "ndim (A1 _) = 1"
| "ndim (A2 _) = 2"
| "ndim (A3 _) = 3"
| "ndim (A4 _) = 4"

definition shape1 :: "'a list list \<Rightarrow> nat" where
  "shape1 xs = (case xs of [] \<Rightarrow> 0 | r # _ \<Rightarrow> length r)"

definition shape2 :: "'a list list list \<Rightarrow> nat" where
  "shape2 xs = (case xs of [] \<Rightarrow> 0 | r # _ \<Rightarrow> shape1 r)"

definition shape3 :: "'a list list list list \<Rightarrow> nat" where
  "shape3 xs = (case xs of [] \<Rightarrow> 0 | r # _ \<Rightarrow> shape2 r)"

fun shape :: "ndarray \<Rightarrow> nat list" where
  "shape (A1 xs) = [length xs]"
| "shape (A2 xs) = [length xs, shape1 xs]"
| "shape (A3 xs) = [length xs, shape1 xs, shape2 xs]"
| "shape (A4 xs) = [length xs, shape1 xs, shape2 xs, shape3 xs]"

text \<open>\<^verbatim>\<open>xs[a:b]\<close> for indices that are not negative: clamped, empty when \<open>b \<le> a\<close>.\<close>

definition slice :: "nat \<Rightarrow> nat \<Rightarrow> 'a list \<Rightarrow> 'a list" where
  "slice a b xs = take (b - a) (drop a xs)"

definition slice2 :: "nat \<Rightarrow> nat \<Rightarrow> nat \<Rightarrow> nat \<Rightarrow> 'a list list \<Rightarrow> 'a list list" where
  "slice2 ya yb xa xb p = map (slice xa xb) (slice ya yb p)"

definition slice3 ::
  "nat \<Rightarrow> nat \<Rightarrow> nat \<Rightarrow> nat \<Rightarrow> nat \<Rightarrow> nat \<Rightarrow> 'a list list list \<Rightarrow> 'a list list list" where
  "slice3 za zb ya yb xa xb c = map (slice2 ya yb xa xb) (slice za zb c)"

text \<open>\<^verbatim>\<open>np.zeros\<close>: a negative extent raises \<^verbatim>\<open>ValueError\<close>.\<close>

definition zeros3 :: "int \<Rightarrow> int \<Rightarrow> int \<Rightarrow> error + real list list list" where
  "zeros3 a b c =
     (if a < 0 \<or> b < 0 \<or> c < 0 then Inl ValueError
      else Inr (replicate (nat a) (replicate (nat b) (replicate (nat c) 0))))"

definition zeros4 :: "int \<Rightarrow> int \<Rightarrow> int \<Rightarrow> int \<Rightarrow> error + real list list list list" where
  "zeros4 a b c d =
     (if a < 0 \<or> b < 0 \<or> c < 0 \<or> d < 0 then Inl ValueError
      else Inr (replicate (nat a) (replicate (nat b) (replicate (nat c) (replicate (nat d) 0)))))"

section \<open>CoordinateLocator\<close>

text \<open>\<^verbatim>\<open>np.argwhere\<close> on a 1-D array: the indices where the condition holds, ascending.\<close>

definition argwhere :: "('a \<Rightarrow> bool) \<Rightarrow> 'a list \<Rightarrow> nat list" where
  "argwhere P xs = filter (\<lambda>i. P (xs ! i)) [0..<length xs]"

text \<open>\<^verbatim>\<open>dist.min()\<close>: \<^verbatim>\<open>ValueError\<close> on an empty array.\<close>

definition array_min :: "real list \<Rightarrow> error + real" where
  "array_min xs = (case xs of [] \<Rightarrow> Inl ValueError | x # r \<Rightarrow> Inr (fold min r x))"

text \<open>
  \<^verbatim>\<open>find_nearest_1d(data, value)\<close>:
  \<^verbatim>\<open>dist = np.abs(data-value); return np.argwhere(dist==dist.min())[0][0]\<close>.
\<close>

definition find_nearest_1d :: "real list \<Rightarrow> real \<Rightarrow> error + nat" where
  "find_nearest_1d data v =
     (let dist = map (\<lambda>d. \<bar>d - v\<bar>) data in
      ebind (array_min dist) (\<lambda>m.
        case argwhere (\<lambda>d. d = m) dist of [] \<Rightarrow> Inl IndexError | i # _ \<Rightarrow> Inr i))"

text \<open>
  \<^verbatim>\<open>find_nearest_2d(xdata, ydata, xy)\<close> returns every \<open>(row, column)\<close> of least distance, in
  row-major order.  The square root is monotone, so the squared distance has the same
  minimisers; grids of different shapes raise (numpy's broadcasting of unequal shapes is
  not modelled).
\<close>

definition find_nearest_2d ::
  "real list list \<Rightarrow> real list list \<Rightarrow> real \<times> real \<Rightarrow> error + (nat \<times> nat) list" where
  "find_nearest_2d xdata ydata xy =
     (if map length xdata \<noteq> map length ydata then Inl ValueError
      else
        let dist = map (\<lambda>(xr, yr). map (\<lambda>(x, y). (fst xy - x)\<^sup>2 + (snd xy - y)\<^sup>2) (zip xr yr))
                     (zip xdata ydata)
        in ebind (array_min (concat dist)) (\<lambda>m.
             Inr (concat (map (\<lambda>(r, row). map (\<lambda>c. (r, c)) (argwhere (\<lambda>d. d = m) row))
                              (enumerate 0 dist)))))"

section \<open>Remote files and the environment\<close>

text \<open>
  A dataset (\<^verbatim>\<open>netCDF4.Dataset\<close>): its time variables, already converted to timestamps
  (\<^verbatim>\<open>num2pydate\<close>), and its data variables.
\<close>

record ncfile =
  timevars :: "string \<rightharpoonup> datetime list"
  variables :: "string \<rightharpoonup> ndarray"

text \<open>
  The external collaborators.  \<open>world\<close> maps a file name to the dataset \<^verbatim>\<open>Dataset(f)\<close>
  opens; \<open>ok k\<close> tells whether the \<open>k\<close>-th remote request of a retrieval goes through;
  \<open>strftime\<close> is \<^verbatim>\<open>datetime.strftime(t, tformat)\<close> and \<open>strptime\<close> its inverse
  \<^verbatim>\<open>datetime.strptime(s, tformat)\<close> (\<open>None\<close> when it raises); \<open>date2index\<close> is netCDF4's exact
  lookup (\<open>None\<close> when it raises).  \<^verbatim>\<open>othertime.findNearest\<close> is a function of the
  package that is not among the sources: it is the parameter \<open>findNearest\<close>.
\<close>

record env =
  world :: "string \<rightharpoonup> ncfile"
  ok :: "nat \<Rightarrow> bool"
  strftime :: "datetime \<Rightarrow> string"
  strptime :: "string \<Rightarrow> datetime option"
  findNearest :: "datetime \<Rightarrow> datetime list \<Rightarrow> error + nat"
  date2index :: "datetime \<Rightarrow> datetime list \<Rightarrow> nat option"

text \<open>\<^verbatim>\<open>gettime(nc, timename)\<close>.\<close>

definition gettime :: "ncfile \<Rightarrow> string option \<Rightarrow> error + datetime list" where
  "gettime f timename =
     (case timename of None \<Rightarrow> Inl KeyError
      | Some n \<Rightarrow> (case timevars f n of None \<Rightarrow> Inl KeyError | Some ts \<Rightarrow> Inr ts))"

section \<open>TimeAxisAggregator\<close>

record mfncdap =
  ncfilelist :: "string list"
  timelookup :: "string \<rightharpoonup> string \<times> nat"
  mftime :: "datetime list"

text \<open>
  The inner loop of \<^verbatim>\<open>MFncdap.__init__\<close>:
  \<^verbatim>\<open>for ii,tt in enumerate(time): self._timelookup[tstr] = (f,ii)\<close> (both branches of the
  source's test store the pair).
\<close>

fun enter ::
  "(datetime \<Rightarrow> string) \<Rightarrow> string \<Rightarrow> (nat \<times> datetime) list \<Rightarrow> (string \<rightharpoonup> string \<times> nat)
     \<Rightarrow> (string \<rightharpoonup> string \<times> nat)" where
  "enter fmt f [] lk = lk"
| "enter fmt f ((ii, tt) # r) lk = enter fmt f r (lk(fmt tt \<mapsto> (f, ii)))"

text \<open>The outer loop: \<^verbatim>\<open>for f in self.ncfilelist\<close>, with \<^verbatim>\<open>_timelookup\<close> and \<^verbatim>\<open>timeall\<close>.\<close>

fun init_loop ::
  "env \<Rightarrow> string option \<Rightarrow> string list \<Rightarrow> (string \<rightharpoonup> string \<times> nat) \<Rightarrow> datetime list list
     \<Rightarrow> error + (string \<rightharpoonup> string \<times> nat) \<times> datetime list list" where
  "init_loop E tv [] lk timeall = Inr (lk, timeall)"
| "init_loop E tv (f # fs) lk timeall =
     (case world E f of None \<Rightarrow> Inl OSError
      | Some d \<Rightarrow>
          ebind (gettime d tv) (\<lambda>tm.
            init_loop E tv fs (enter (strftime E) f (enumerate 0 tm) lk) (timeall @ [tm])))"

text \<open>
  \<^verbatim>\<open>np.array(timeall)\<close> on a list of arrays: a rectangular array when all have one length,
  \<^verbatim>\<open>ValueError\<close> (inhomogeneous shape) otherwise.  \<^verbatim>\<open>np.unique\<close> flattens, sorts and
  removes duplicates.
\<close>

definition np_array :: "'a list list \<Rightarrow> error + 'a list list" where
  "np_array xss =
     (case xss of [] \<Rightarrow> Inr []
      | xs # r \<Rightarrow> if list_all (\<lambda>ys. length ys = length xs) r then Inr xss else Inl ValueError)"

definition np_unique :: "datetime list list \<Rightarrow> datetime list" where
  "np_unique xss = sort (remdups (concat xss))"

definition MFncdap_init :: "env \<Rightarrow> string option \<Rightarrow> string list \<Rightarrow> error + mfncdap" where
  "MFncdap_init E tv files =
     ebind (init_loop E tv files Map.empty []) (\<lambda>(lk, timeall).
       ebind (np_array timeall) (\<lambda>arr.
         Inr \<lparr>ncfilelist = files, timelookup = lk, mftime = np_unique arr\<rparr>))"

text \<open>
  \<^verbatim>\<open>MFncdap.__call__(time)\<close>.  The ordered dictionary \<^verbatim>\<open>tslice_dict\<close> is an association
  list in insertion order.
\<close>

fun lookup_all ::
  "env \<Rightarrow> mfncdap \<Rightarrow> datetime list \<Rightarrow> error + (nat list \<times> string list)" where
  "lookup_all E mf [] = Inr ([], [])"
| "lookup_all E mf (t # ts) =
     (case timelookup mf (strftime E t) of None \<Rightarrow> Inl KeyError
      | Some (f, ii) \<Rightarrow>
          ebind (lookup_all E mf ts) (\<lambda>(tind, fname). Inr (ii # tind, f # fname)))"

fun od_append :: "string \<Rightarrow> nat \<Rightarrow> (string \<times> nat list) list \<Rightarrow> (string \<times> nat list) list" where
  "od_append f tt [] = [(f, [tt])]"
| "od_append f tt ((g, vals) # r) =
     (if g = f then (g, vals @ [tt]) # r else (g, vals) # od_append f tt r)"

fun bins :: "(nat \<times> string) list \<Rightarrow> (string \<times> nat list) list \<Rightarrow> (string \<times> nat list) list" where
  "bins [] d = d"
| "bins ((tt, f) # r) d = bins r (od_append f tt d)"

fun minmax :: "(string \<times> nat list) list \<Rightarrow> error + (string \<times> nat \<times> nat) list" where
  "minmax [] = Inr []"
| "minmax ((f, vals) # r) =
     (case vals of [] \<Rightarrow> Inl ValueError
      | v # vs \<Rightarrow> ebind (minmax r) (\<lambda>d. Inr ((f, fold min vs v, fold max vs v) # d)))"

definition MFncdap_call ::
  "env \<Rightarrow> mfncdap \<Rightarrow> datetime list
     \<Rightarrow> error + (nat list \<times> string list \<times> (string \<times> nat \<times> nat) list)" where
  "MFncdap_call E mf tm =
     ebind (lookup_all E mf tm) (\<lambda>(tind, fname).
       ebind (minmax (bins (zip tind fname) [])) (\<lambda>tslice_dict.
         Inr (tind, fname, tslice_dict)))"

section \<open>WindowResolver\<close>

text \<open>
  The coordinates of a \<^verbatim>\<open>GridDAP\<close>: \<^verbatim>\<open>X\<close> and \<^verbatim>\<open>Y\<close> are both 1-D axes or both 2-D grids.
\<close>

datatype grid = Grid1 "real list" "real list" | Grid2 "real list list" "real list list"

text \<open>
  The attributes of a \<^verbatim>\<open>GridDAP\<close> object that the methods read and write.  \<open>Z\<close> is
  \<open>None\<close> exactly when \<^verbatim>\<open>zcoord\<close> is \<^verbatim>\<open>None\<close>.  The index attributes hold \<open>0\<close> before
  the first call sets them.
\<close>

record griddap =
  multifile :: bool
  graball :: bool
  nc :: ncfile
  ncfiles :: "string list"
  MF :: "mfncdap option"
  timecoord :: "string option"
  XY :: grid
  Z :: "real list option"
  time :: "datetime list"
  localtime :: "datetime list"
  localXY :: grid
  localZ :: "real list"
  t1 :: nat
  t2 :: nat
  x1 :: nat
  x2 :: nat
  y1 :: nat
  y2 :: nat
  z1 :: nat
  z2 :: nat
  nt :: int
  nx :: int
  ny :: int
  nz :: int

text \<open>A requested physical range: \<open>None\<close> is Python's \<^verbatim>\<open>None\<close>.\<close>

type_synonym prange = "(real \<times> real) option"

text \<open>
  \<^verbatim>\<open>get_indices(xrange, yrange, zrange)\<close>.  The source calls
  \<^verbatim>\<open>find_nearest_1d(zrange[0], self.Z)\<close> with the operands exchanged; the distance
  \<open>\<bar>v - d\<bar>\<close> is the same array, so the model calls it in the declared order.
\<close>

definition nearest_pair :: "real list \<Rightarrow> real \<times> real \<Rightarrow> error + nat \<times> nat" where
  "nearest_pair axis r =
     ebind (find_nearest_1d axis (fst r)) (\<lambda>i.
       ebind (find_nearest_1d axis (snd r)) (\<lambda>j. Inr (i, j)))"

definition first_hit :: "(nat \<times> nat) list \<Rightarrow> error + nat \<times> nat" where
  "first_hit ind = (case ind of [] \<Rightarrow> Inl IndexError | p # _ \<Rightarrow> Inr p)"

definition xy_indices :: "grid \<Rightarrow> prange \<Rightarrow> prange \<Rightarrow> error + (nat \<times> nat) \<times> (nat \<times> nat)" where
  "xy_indices g xrange yrange =
     (case g of
        Grid1 X Y \<Rightarrow>
          ebind (case xrange of None \<Rightarrow> Inr (0, length X) | Some r \<Rightarrow> nearest_pair X r) (\<lambda>xw.
            ebind (case yrange of None \<Rightarrow> Inr (0, length Y)
                   | Some r \<Rightarrow> ebind (nearest_pair Y r) (\<lambda>(i, j). Inr (min i j, max i j))) (\<lambda>yw.
              Inr (xw, yw)))
      | Grid2 X Y \<Rightarrow>
          (case (xrange, yrange) of
             (Some xr, Some yr) \<Rightarrow>
               ebind (ebind (find_nearest_2d X Y (fst xr, fst yr)) first_hit) (\<lambda>(ya, xa).
                 ebind (ebind (find_nearest_2d X Y (snd xr, snd yr)) first_hit) (\<lambda>(yb, xb).
                   Inr ((xa, xb), (ya, yb))))
           | _ \<Rightarrow> Inr ((0, shape1 X), (0, length Y))))"

definition z_indices :: "real list \<Rightarrow> prange \<Rightarrow> error + nat \<times> nat" where
  "z_indices zs zrange =
     (case zrange of None \<Rightarrow> Inr (0, length zs)
      | Some r \<Rightarrow> ebind (nearest_pair zs r) (\<lambda>(i, j). Inr (i, if i = j then j + 1 else j)))"

definition get_indices :: "prange \<Rightarrow> prange \<Rightarrow> prange \<Rightarrow> griddap \<Rightarrow> error + griddap" where
  "get_indices xrange yrange zrange self =
     ebind (xy_indices (XY self) xrange yrange) (\<lambda>((xa, xb), (ya, yb)).
       let self = self\<lparr>x1 := xa, x2 := xb, y1 := ya, y2 := yb,
                        nx := int xb - int xa, ny := int yb - int ya\<rparr>
       in case Z self of None \<Rightarrow> Inr self
          | Some zs \<Rightarrow>
              ebind (z_indices zs zrange) (\<lambda>(za, zb).
                Inr (self\<lparr>z1 := za, z2 := zb, nz := int zb - int za\<rparr>)))"

text \<open>
  \<^verbatim>\<open>get_time_indices(trange)\<close>: the time axis of the file, or of the multi-file object
  (built on first use); the window; \<^verbatim>\<open>if self.t1==self.t2: self.t2+=1\<close>.
\<close>

definition get_time_indices :: "env \<Rightarrow> (datetime \<times> datetime) option \<Rightarrow> griddap \<Rightarrow> error + griddap" where
  "get_time_indices E trange self =
     ebind (if \<not> multifile self
            then ebind (gettime (nc self) (timecoord self)) (\<lambda>tm. Inr (self\<lparr>time := tm\<rparr>))
            else ebind (case MF self of Some mf \<Rightarrow> Inr mf
                        | None \<Rightarrow> MFncdap_init E (timecoord self) (ncfiles self)) (\<lambda>mf.
                   Inr (self\<lparr>MF := Some mf, time := mftime mf\<rparr>))) (\<lambda>self.
       ebind (case trange of None \<Rightarrow> Inr (0, length (time self))
              | Some (ta, tb) \<Rightarrow>
                  ebind (findNearest E ta (time self)) (\<lambda>i.
                    ebind (findNearest E tb (time self)) (\<lambda>j. Inr (i, j)))) (\<lambda>(i, j).
         let j = (if i = j then j + 1 else j)
         in Inr (self\<lparr>t1 := i, t2 := j, nt := int j - int i\<rparr>)))"

section \<open>ChunkRetriever\<close>

text \<open>
  Every remote request takes the next number \<open>k\<close> of the retrieval and goes through iff
  \<open>ok E k\<close>; the functions return the next free number with their result.  The closures
  of \<^verbatim>\<open>get_data_singlefile\<close> read the window from \<^verbatim>\<open>self\<close> and the variable from
  \<^verbatim>\<open>nc.variables[varname]\<close>.

  \<^verbatim>\<open>get_2d\<close>: one rectangular read, retried for ever.  The array it is given is not used.
  The source retries by calling itself from the \<^verbatim>\<open>except\<close> clause; the model puts no bound
  on the depth of that recursion (the interpreter's recursion limit is not modelled).
\<close>

partial_function (option) get_2d ::
  "env \<Rightarrow> griddap \<Rightarrow> real list list \<Rightarrow> nat \<Rightarrow> (real list list \<times> nat) option" where
  "get_2d E self v k =
     (if ok E k then Some (slice2 (y1 self) (y2 self) (x1 self) (x2 self) v, Suc k)
      else get_2d E self v (Suc k))"

declare get_2d.simps [code]

text \<open>
  The body of the \<^verbatim>\<open>try\<close> of \<^verbatim>\<open>get_3d_step\<close> and \<^verbatim>\<open>get_4d_step\<close>:
  \<^verbatim>\<open>for ii,tt in enumerate(range(tstart,t2)): data[ii,...] = nc.variables[varname][tt, ...]\<close>.
  \<open>rd tt\<close> is the record read at time index \<open>tt\<close> and \<open>put data ii r\<close> the assignment
  \<^verbatim>\<open>data[ii,...] = r\<close>; both are \<open>None\<close> when they raise.  The result is \<open>Inr\<close> when the loop
  ends and \<open>Inl\<close> when an exception leaves it, with the value of \<^verbatim>\<open>tt\<close> at that moment and
  the array as filled so far.
\<close>

fun step_loop ::
  "env \<Rightarrow> (nat \<Rightarrow> 'r option) \<Rightarrow> ('r list \<Rightarrow> nat \<Rightarrow> 'r \<Rightarrow> 'r list option) \<Rightarrow> (nat \<times> nat) list
     \<Rightarrow> 'r list \<Rightarrow> nat \<Rightarrow> (nat \<times> 'r list \<times> nat) + ('r list \<times> nat)" where
  "step_loop E rd put [] data k = Inr (data, k)"
| "step_loop E rd put ((ii, tt) # r) data k =
     (if \<not> ok E k then Inl (tt, data, Suc k)
      else case rd tt of None \<Rightarrow> Inl (tt, data, Suc k)
           | Some x \<Rightarrow>
               (case put data ii x of None \<Rightarrow> Inl (tt, data, Suc k)
                | Some data' \<Rightarrow> step_loop E rd put r data' (Suc k)))"

text \<open>
  The retry of \<^verbatim>\<open>get_3d_step\<close> and \<^verbatim>\<open>get_4d_step\<close>:
  \<^verbatim>\<open>except: time.sleep(0.1); data = get_3d_step(data,tt)\<close>.
\<close>

partial_function (option) get_step ::
  "env \<Rightarrow> (nat \<Rightarrow> 'r option) \<Rightarrow> ('r list \<Rightarrow> nat \<Rightarrow> 'r \<Rightarrow> 'r list option) \<Rightarrow> nat
     \<Rightarrow> 'r list \<Rightarrow> nat \<Rightarrow> nat \<Rightarrow> ('r list \<times> nat) option" where
  "get_step E rd put tb data tstart k =
     (case step_loop E rd put (enumerate 0 [tstart..<tb]) data k of
        Inr r \<Rightarrow> Some r
      | Inl (tt, data', k') \<Rightarrow> get_step E rd put tb data' tt k')"

declare get_step.simps [code]

text \<open>
  Reading one record, \<^verbatim>\<open>nc.variables[varname][tt, y1:y2, x1:x2]\<close> (\<^verbatim>\<open>IndexError\<close> past
  the end), and writing it into row \<open>ii\<close> of the pre-allocated array (\<^verbatim>\<open>IndexError\<close> past
  the end, \<^verbatim>\<open>ValueError\<close> for a record of another shape; numpy's broadcasting of
  size-one extents is not modelled).
\<close>

definition read3 :: "griddap \<Rightarrow> real list list list \<Rightarrow> nat \<Rightarrow> real list list option" where
  "read3 self v tt =
     (if tt < length v then Some (slice2 (y1 self) (y2 self) (x1 self) (x2 self) (v ! tt))
      else None)"

definition read4 :: "griddap \<Rightarrow> real list list list list \<Rightarrow> nat \<Rightarrow> real list list list option" where
  "read4 self v tt =
     (if tt < length v
      then Some (slice3 (z1 self) (z2 self) (y1 self) (y2 self) (x1 self) (x2 self) (v ! tt))
      else None)"

definition put3 :: "real list list list \<Rightarrow> nat \<Rightarrow> real list list \<Rightarrow> real list list list option" where
  "put3 data ii r =
     (if ii < length data \<and> map length r = map length (data ! ii) then Some (data[ii := r])
      else None)"

definition put4 ::
  "real list list list list \<Rightarrow> nat \<Rightarrow> real list list list \<Rightarrow> real list list list list option" where
  "put4 data ii r =
     (if ii < length data \<and> map (map length) r = map (map length) (data ! ii)
      then Some (data[ii := r]) else None)"

definition get_3d_step ::
  "env \<Rightarrow> griddap \<Rightarrow> real list list list \<Rightarrow> nat \<Rightarrow> real list list list \<Rightarrow> nat \<Rightarrow> nat
     \<Rightarrow> (real list list list \<times> nat) option" where
  "get_3d_step E self v tb data tstart k = get_step E (read3 self v) put3 tb data tstart k"

definition get_4d_step ::
  "env \<Rightarrow> griddap \<Rightarrow> real list list list list \<Rightarrow> nat \<Rightarrow> real list list list list \<Rightarrow> nat \<Rightarrow> nat
     \<Rightarrow> (real list list list list \<times> nat) option" where
  "get_4d_step E self v tb data tstart k = get_step E (read4 self v) put4 tb data tstart k"

text \<open>The local coordinates set at the end of \<^verbatim>\<open>get_data_singlefile\<close>.\<close>

definition set_local :: "griddap \<Rightarrow> griddap" where
  "set_local self =
     self\<lparr>localXY :=
       (case XY self of
          Grid1 X Y \<Rightarrow> Grid1 (slice (x1 self) (x2 self) X) (slice (y1 self) (y2 self) Y)
        | Grid2 X Y \<Rightarrow>
            Grid2 (slice2 (y1 self) (y2 self) (x1 self) (x2 self) X)
                  (slice2 (y1 self) (y2 self) (x1 self) (x2 self) Y))\<rparr>"

text \<open>
  \<^verbatim>\<open>get_data_singlefile(varname, nc, t1, t2)\<close>.  With \<^verbatim>\<open>graball\<close> the first request is the
  bulk read; when it fails, and without \<^verbatim>\<open>graball\<close>, the array is allocated with the
  extents \<^verbatim>\<open>self.nt, self.ny, self.nx\<close> and filled record by record.  A variable of another
  rank than 2, 3 or 4 leaves \<^verbatim>\<open>data\<close> unbound.
\<close>

definition get_data_singlefile ::
  "env \<Rightarrow> griddap \<Rightarrow> string \<Rightarrow> ncfile \<Rightarrow> nat \<Rightarrow> nat \<Rightarrow> nat
     \<Rightarrow> (error + ndarray \<times> griddap \<times> nat) option" where
  "get_data_singlefile E self varname f ta tb k =
     (case variables f varname of
        None \<Rightarrow> Some (Inl KeyError)
      | Some (A1 v) \<Rightarrow> Some (Inl UnboundLocalError)
      | Some (A2 v) \<Rightarrow>
          (case zeros3 1 (ny self) (nx self) of
             Inl e \<Rightarrow> Some (Inl e)
           | Inr data \<Rightarrow>
               map_option (\<lambda>(d, k'). Inr (A2 d, set_local self, k')) (get_2d E self v k))
      | Some (A3 v) \<Rightarrow>
          (if graball self \<and> ok E k
           then Some (Inr (A3 (slice3 ta tb (y1 self) (y2 self) (x1 self) (x2 self) v),
                           set_local self, Suc k))
           else
             case zeros3 (nt self) (ny self) (nx self) of
               Inl e \<Rightarrow> Some (Inl e)
             | Inr data \<Rightarrow>
                 map_option (\<lambda>(d, k'). Inr (A3 d, set_local self, k'))
                   (get_3d_step E self v tb data ta (if graball self then Suc k else k)))
      | Some (A4 v) \<Rightarrow>
          (case Z self of
             None \<Rightarrow> Some (Inl AttributeError)
           | Some zs \<Rightarrow>
               let self' = self\<lparr>localZ := slice (z1 self) (z2 self) zs\<rparr> in
               if graball self \<and> ok E k
               then Some (Inr (A4 (map (slice3 (z1 self) (z2 self) (y1 self) (y2 self)
                                          (x1 self) (x2 self)) (slice ta tb v)),
                               set_local self', Suc k))
               else
                 case zeros4 (nt self) (nz self) (ny self) (nx self) of
                   Inl e \<Rightarrow> Some (Inl e)
                 | Inr data \<Rightarrow>
                     map_option (\<lambda>(d, k'). Inr (A4 d, set_local self', k'))
                       (get_4d_step E self v tb data ta (if graball self then Suc k else k))))"

section \<open>MultiFileStitcher\<close>

text \<open>\<^verbatim>\<open>openfile(ff)\<close>: \<^verbatim>\<open>Dataset(ff)\<close>, retried for ever after a sleep.\<close>

partial_function (option) openfile :: "env \<Rightarrow> string \<Rightarrow> nat \<Rightarrow> (ncfile \<times> nat) option" where
  "openfile E ff k =
     (case (if ok E k then world E ff else None) of
        Some f \<Rightarrow> Some (f, Suc k)
      | None \<Rightarrow> openfile E ff (Suc k))"

declare openfile.simps [code]

text \<open>
  \<^verbatim>\<open>data[p1:p2+1,...] = chunk\<close> on a numpy array: a chunk of the rank of the array replaces
  the rows of the slice when it has their shape; a chunk of one rank less, which a 2-D
  variable gives, is written to every row of the slice when it has the shape of a row;
  \<^verbatim>\<open>ValueError\<close> is raised otherwise (numpy's broadcasting of size-one extents is not
  modelled).
\<close>

definition assign_rows :: "ndarray \<Rightarrow> nat \<Rightarrow> nat \<Rightarrow> ndarray \<Rightarrow> error + ndarray" where
  "assign_rows data pa pb chunk =
     (case (data, chunk) of
        (A3 d, A3 c) \<Rightarrow>
          if map (map length) c = map (map length) (slice pa pb d)
          then Inr (A3 (take pa d @ c @ drop (pa + length c) d)) else Inl ValueError
      | (A3 d, A2 c) \<Rightarrow>
          if list_all (\<lambda>row. map length row = map length c) (slice pa pb d)
          then Inr (A3 (take pa d @ replicate (length (slice pa pb d)) c
                          @ drop (pa + length (slice pa pb d)) d))
          else Inl ValueError
      | (A4 d, A4 c) \<Rightarrow>
          if map (map (map length)) c = map (map (map length)) (slice pa pb d)
          then Inr (A4 (take pa d @ c @ drop (pa + length c) d)) else Inl ValueError
      | (A4 d, A3 c) \<Rightarrow>
          if list_all (\<lambda>row. map (map length) row = map (map length) c) (slice pa pb d)
          then Inr (A4 (take pa d @ replicate (length (slice pa pb d)) c
                          @ drop (pa + length (slice pa pb d)) d))
          else Inl ValueError
      | _ \<Rightarrow> Inl ValueError)"

text \<open>
  The loop of \<^verbatim>\<open>get_data_multifile\<close> over \<^verbatim>\<open>tslice_dict\<close>:
  \<^verbatim>\<open>p2 = p1+t2-t1; data[p1:p2+1,...] = self.get_data_singlefile(varname,nc,t1,t2+1); p1=p2+1\<close>.
\<close>

fun multi_loop ::
  "env \<Rightarrow> string \<Rightarrow> (string \<times> nat \<times> nat) list \<Rightarrow> griddap \<Rightarrow> ndarray \<Rightarrow> nat \<Rightarrow> nat
     \<Rightarrow> (error + ndarray \<times> griddap \<times> nat) option" where
  "multi_loop E varname [] self data pa k = Some (Inr (data, self, k))"
| "multi_loop E varname ((ff, ta, tb) # r) self data pa k =
     (case openfile E ff k of
        None \<Rightarrow> None
      | Some (f, k') \<Rightarrow>
          (case get_data_singlefile E self varname f ta (tb + 1) k' of
             None \<Rightarrow> None
           | Some (Inl e) \<Rightarrow> Some (Inl e)
           | Some (Inr (chunk, self', k'')) \<Rightarrow>
               (let pb = pa + tb - ta in
                case assign_rows data pa (pb + 1) chunk of
                  Inl e \<Rightarrow> Some (Inl e)
                | Inr data' \<Rightarrow> multi_loop E varname r self' data' (pb + 1) k'')))"

definition get_data_multifile ::
  "env \<Rightarrow> griddap \<Rightarrow> string \<Rightarrow> nat \<Rightarrow> (error + ndarray \<times> griddap \<times> nat) option" where
  "get_data_multifile E self varname k =
     (case (case Z self of
              None \<Rightarrow> map_sum id A3 (zeros3 (nt self) (ny self) (nx self))
            | Some zs \<Rightarrow> map_sum id A4 (zeros4 (nt self) (nz self) (ny self) (nx self))) of
        Inl e \<Rightarrow> Some (Inl e)
      | Inr data \<Rightarrow>
          (case MF self of
             None \<Rightarrow> Some (Inl TypeError)
           | Some mf \<Rightarrow>
               (case MFncdap_call E mf (localtime self) of
                  Inl e \<Rightarrow> Some (Inl e)
                | Inr (tindex, ncurl, tslice_dict) \<Rightarrow>
                    multi_loop E varname tslice_dict self data 0 k)))"

text \<open>\<^verbatim>\<open>GridDAP.get_data(varname, xrange, yrange, zrange, trange)\<close>.\<close>

definition get_data ::
  "env \<Rightarrow> griddap \<Rightarrow> string \<Rightarrow> prange \<Rightarrow> prange \<Rightarrow> prange \<Rightarrow> (datetime \<times> datetime) option \<Rightarrow> nat
     \<Rightarrow> (error + ndarray \<times> griddap \<times> nat) option" where
  "get_data E self varname xrange yrange zrange trange k =
     (case ebind (get_indices xrange yrange zrange self) (get_time_indices E trange) of
        Inl e \<Rightarrow> Some (Inl e)
      | Inr self \<Rightarrow>
          (let self = self\<lparr>localtime := slice (t1 self) (t2 self) (time self)\<rparr> in
           if \<not> multifile self
           then get_data_singlefile E self varname (nc self) (t1 self) (t2 self) k
           else get_data_multifile E self varname k))"

section \<open>OutputStoreWriter\<close>

text \<open>
  The output file: its variables by name.  A time variable holds timestamps
  (\<^verbatim>\<open>date2num\<close> and \<^verbatim>\<open>num2pydate\<close> are taken as inverse), a coordinate variable an array,
  and a data variable one entry per index of the unlimited time dimension, \<open>None\<close> where
  nothing was written (the fill value).  Dimensions and attributes are not modelled.
  \<open>written\<close> is a ghost log: the variable and row of every data row written, in order.
\<close>

datatype ncvar = VTime "datetime list" | VCoord ndarray | VData "ndarray option list"

record store =
  vars :: "string \<rightharpoonup> ncvar"
  written :: "(string \<times> nat) list"

definition hasvar :: "store \<Rightarrow> string option \<Rightarrow> bool" where
  "hasvar s var = (case var of None \<Rightarrow> False | Some n \<Rightarrow> vars s n \<noteq> None)"

text \<open>
  \<^verbatim>\<open>v[a:b] = values\<close> along the unlimited dimension: the variable grows to \<open>b\<close>, the rows
  before \<open>a\<close> that did not exist are fill.
\<close>

definition assign_slice :: "'a \<Rightarrow> nat \<Rightarrow> 'a list \<Rightarrow> 'a list \<Rightarrow> 'a list" where
  "assign_slice fill a new old =
     take a (old @ replicate (a - length old) fill) @ new @ drop (a + length new) old"

text \<open>
  The records that an assignment to a slice of \<open>n\<close> time indices writes: the data of a 3-D
  or 4-D variable must have one record for each index; the 2-D array of a variable
  without time axis is written to every index (broadcast).
\<close>

fun records :: "nat \<Rightarrow> ndarray \<Rightarrow> error + ndarray list" where
  "records n (A1 xs) = Inl ValueError"
| "records n (A2 xs) = Inr (replicate n (A2 xs))"
| "records n (A3 xs) = (if length xs = n then Inr (map A2 xs) else Inl ValueError)"
| "records n (A4 xs) = (if length xs = n then Inr (map A3 xs) else Inl ValueError)"

text \<open>
  The attributes of a \<^verbatim>\<open>GetDAP\<close> object.  \<open>varnames\<close> is \<^verbatim>\<open>self.variables\<close>; \<open>remote vv\<close> is
  \<^verbatim>\<open>getattr(self,vv)\<close> and \<open>dap vv\<close> is \<^verbatim>\<open>getattr(self,'_'+vv)\<close>; \<open>coord_names\<close> gives for a
  remote variable what \<^verbatim>\<open>get_coord_names\<close> reads from the remote metadata
  \<open>(timecoord, xcoord, ycoord, zcoord)\<close>; \<open>outnc\<close> is the output file with its handle, \<open>None\<close>
  before it is created.  The session writes to one output file; the remote file that
  \<^verbatim>\<open>write_var\<close> reopens for its metadata in multi-file mode is not modelled.
\<close>

record getdap =
  varnames :: "string list"
  remote :: "string \<rightharpoonup> string"
  dap :: "string \<rightharpoonup> griddap"
  coord_names :: "string \<rightharpoonup> string option \<times> string \<times> string \<times> string option"
  outnc :: "store option"
  tindex :: "nat \<times> nat"

text \<open>
  \<^verbatim>\<open>write_time_var(tout, timecoord)\<close> on the open store; it returns the store and
  \<^verbatim>\<open>self.tindex\<close>.
\<close>

definition write_time_var ::
  "env \<Rightarrow> datetime list \<Rightarrow> string option \<Rightarrow> store \<Rightarrow> error + store \<times> (nat \<times> nat)" where
  "write_time_var E tout tc s =
     (if hasvar s tc then
        (case vars s (the tc) of
           Some (VTime lt) \<Rightarrow>
             (case tout of
                [] \<Rightarrow> Inl IndexError
              | t0 # _ \<Rightarrow>
                  ebind (case date2index E t0 lt of
                           Some i \<Rightarrow> Inr i
                         | None \<Rightarrow>
                             (case lt of [] \<Rightarrow> Inl IndexError
                              | l0 # _ \<Rightarrow> Inr (if t0 > l0 then 1 else 0))) (\<lambda>ta.
                    let ti = (ta, ta + length tout) in
                    if length lt < snd ti
                    then Inr (s\<lparr>vars := (vars s)(the tc \<mapsto> VTime (assign_slice 0 (fst ti) tout lt))\<rparr>, ti)
                    else Inr (s, ti)))
         | _ \<Rightarrow> Inl AttributeError)
      else
        (let name = (case tc of None \<Rightarrow> ''time'' | Some n \<Rightarrow> n) in
         case (case vars s name of None \<Rightarrow> Some [] | Some (VTime lt) \<Rightarrow> Some lt | _ \<Rightarrow> None) of
           None \<Rightarrow> Inl AttributeError
         | Some lt \<Rightarrow>
             Inr (s\<lparr>vars := (vars s)(name \<mapsto> VTime (assign_slice 0 0 tout lt))\<rparr>,
                  (0, length tout))))"

text \<open>
  Writing a coordinate: \<^verbatim>\<open>create_ncvar_fromvarname(name, ...)\<close> (a no-op when the variable
  exists) and \<^verbatim>\<open>self._outnc.variables[name][:] = value\<close>.
\<close>

definition write_coord :: "string \<Rightarrow> ndarray \<Rightarrow> store \<Rightarrow> error + store" where
  "write_coord name a s =
     (case vars s name of
        None \<Rightarrow> Inr (s\<lparr>vars := (vars s)(name \<mapsto> VCoord a)\<rparr>)
      | Some (VCoord b) \<Rightarrow>
          if shape a = shape b then Inr (s\<lparr>vars := (vars s)(name \<mapsto> VCoord a)\<rparr>)
          else Inl ValueError
      | _ \<Rightarrow> Inl ValueError)"

definition localX :: "griddap \<Rightarrow> ndarray" where
  "localX d = (case localXY d of Grid1 X Y \<Rightarrow> A1 X | Grid2 X Y \<Rightarrow> A2 X)"

definition localY :: "griddap \<Rightarrow> ndarray" where
  "localY d = (case localXY d of Grid1 X Y \<Rightarrow> A1 Y | Grid2 X Y \<Rightarrow> A2 Y)"

text \<open>
  The last statement of \<^verbatim>\<open>write_var\<close>:
  \<^verbatim>\<open>self._outnc.variables[remotevar][self.tindex[0]:self.tindex[1],...] = data\<close>, after
  \<^verbatim>\<open>create_ncvar_fromvarname(remotevar, ...)\<close>.
\<close>

definition write_rows :: "string \<Rightarrow> nat \<times> nat \<Rightarrow> ndarray \<Rightarrow> store \<Rightarrow> error + store" where
  "write_rows name ti data s =
     (case (case vars s name of None \<Rightarrow> Some [] | Some (VData old) \<Rightarrow> Some old | _ \<Rightarrow> None) of
        None \<Rightarrow> Inl ValueError
      | Some old \<Rightarrow>
          ebind (records (snd ti - fst ti) data) (\<lambda>rs.
            Inr (s\<lparr>vars := (vars s)(name \<mapsto> VData (assign_slice None (fst ti) (map Some rs) old)),
                   written := written s @ map (Pair name) [fst ti..<snd ti]\<rparr>)))"

text \<open>\<^verbatim>\<open>write_var(outfile, var, data)\<close>.\<close>

definition write_var :: "env \<Rightarrow> getdap \<Rightarrow> string \<Rightarrow> ndarray \<Rightarrow> error + getdap" where
  "write_var E self var data =
     (let s0 = (case outnc self of None \<Rightarrow> \<lparr>vars = Map.empty, written = []\<rparr> | Some s \<Rightarrow> s) in
      case (remote self var, dap self var) of
        (Some remotevar, Some dapobj) \<Rightarrow>
          (case coord_names self remotevar of
             None \<Rightarrow> Inl KeyError
           | Some (tcoord, xcoord, ycoord, zcoord) \<Rightarrow>
               ebind (write_coord xcoord (localX dapobj) s0) (\<lambda>s1.
               ebind (write_coord ycoord (localY dapobj) s1) (\<lambda>s2.
               ebind (case zcoord of None \<Rightarrow> Inr s2
                      | Some zc \<Rightarrow> write_coord zc (A1 (localZ dapobj)) s2) (\<lambda>s3.
               ebind (write_time_var E (localtime dapobj) tcoord s3) (\<lambda>(s4, ti).
               ebind (write_rows remotevar ti data s4) (\<lambda>s5.
                 Inr (self\<lparr>outnc := Some s5, tindex := ti\<rparr>)))))))
      | _ \<Rightarrow> Inl AttributeError)"

section \<open>RetrievalOrchestrator\<close>

text \<open>
  What a caller can pass as \<^verbatim>\<open>trange\<close>: \<^verbatim>\<open>None\<close>, two strings, two timestamps, or two
  values of another type.
\<close>

datatype trange_arg = TNone | TStrings string string | TDates datetime datetime | TOther

text \<open>
  \<^verbatim>\<open>check_trange(trange)\<close> starts with \<^verbatim>\<open>isinstance(trange[0],str)\<close>; subscripting
  \<^verbatim>\<open>None\<close> raises \<^verbatim>\<open>TypeError\<close>.
\<close>

definition check_trange :: "env \<Rightarrow> trange_arg \<Rightarrow> error + datetime \<times> datetime" where
  "check_trange E trange =
     (case trange of
        TNone \<Rightarrow> Inl TypeError
      | TStrings a b \<Rightarrow>
          (case strptime E a of None \<Rightarrow> Inl ValueError
           | Some ta \<Rightarrow> (case strptime E b of None \<Rightarrow> Inl ValueError | Some tb \<Rightarrow> Inr (ta, tb)))
      | TDates ta tb \<Rightarrow> Inr (ta, tb)
      | TOther \<Rightarrow> Inl (Exception ''unknown time format''))"

text \<open>\<^verbatim>\<open>load_data(varname, xr, yr, zr, tr)\<close>; the \<^verbatim>\<open>GridDAP\<close> object of the variable is updated.\<close>

definition load_data ::
  "env \<Rightarrow> getdap \<Rightarrow> string \<Rightarrow> prange \<Rightarrow> prange \<Rightarrow> prange \<Rightarrow> (datetime \<times> datetime) option \<Rightarrow> nat
     \<Rightarrow> (error + ndarray \<times> getdap \<times> nat) option" where
  "load_data E self varname xr yr zr tr k =
     (case (remote self varname, dap self varname) of
        (Some ncvarname, Some d) \<Rightarrow>
          map_option (map_sum id (\<lambda>(data, d', k'). (data, self\<lparr>dap := (dap self)(varname \<mapsto> d')\<rparr>, k')))
            (get_data E d ncvarname xr yr zr tr k)
      | _ \<Rightarrow> Some (Inl AttributeError))"

text \<open>
  The loop of \<^verbatim>\<open>GetDAP.__call__\<close>; \<open>data\<close> is the local variable of that name, \<open>None\<close> while
  it is unbound.
\<close>

fun call_loop ::
  "env \<Rightarrow> prange \<Rightarrow> prange \<Rightarrow> prange \<Rightarrow> datetime \<times> datetime \<Rightarrow> string option \<Rightarrow> string list
     \<Rightarrow> getdap \<Rightarrow> ndarray option \<Rightarrow> nat \<Rightarrow> (error + ndarray \<times> getdap \<times> nat) option" where
  "call_loop E xr yr zr tr outfile [] self data k =
     (case data of None \<Rightarrow> Some (Inl UnboundLocalError) | Some d \<Rightarrow> Some (Inr (d, self, k)))"
| "call_loop E xr yr zr tr outfile (vv # vs) self data k =
     (case load_data E self vv xr yr zr (Some tr) k of
        None \<Rightarrow> None
      | Some (Inl e) \<Rightarrow> Some (Inl e)
      | Some (Inr (d, self', k')) \<Rightarrow>
          (case (if outfile = None then Inr self' else write_var E self' vv d) of
             Inl e \<Rightarrow> Some (Inl e)
           | Inr self'' \<Rightarrow> call_loop E xr yr zr tr outfile vs self'' (Some d) k'))"

text \<open>\<^verbatim>\<open>GetDAP.__call__(xrange, yrange, trange, zrange=None, outfile=None)\<close>.\<close>

definition GetDAP_call ::
  "env \<Rightarrow> getdap \<Rightarrow> prange \<Rightarrow> prange \<Rightarrow> trange_arg \<Rightarrow> prange \<Rightarrow> string option \<Rightarrow> nat
     \<Rightarrow> (error + ndarray \<times> getdap \<times> nat) option" where
  "GetDAP_call E self xrange yrange trange zrange outfile k =
     (case check_trange E trange of
        Inl e \<Rightarrow> Some (Inl e)
      | Inr tr \<Rightarrow> call_loop E xrange yrange zrange tr outfile (varnames self) self None k)"

section \<open>Auxiliary notions for the statements\<close>

text \<open>The time axis \<^verbatim>\<open>MFncdap.__init__\<close> reads from the file \<open>f\<close>, when it can be read.\<close>

definition file_time :: "env \<Rightarrow> string option \<Rightarrow> string \<Rightarrow> datetime list option" where
  "file_time E tv f =
     (case world E f of None \<Rightarrow> None
      | Some d \<Rightarrow> (case gettime d tv of Inl e \<Rightarrow> None | Inr tm \<Rightarrow> Some tm))"

text \<open>
  The window lies in the variable and the extents \<^verbatim>\<open>nt, nz, ny, nx\<close> are those of the
  window: what \<^verbatim>\<open>get_indices\<close> and \<^verbatim>\<open>get_time_indices\<close> establish for ordered ranges on a
  variable as large as its coordinate axes.
\<close>

definition plane_fits :: "griddap \<Rightarrow> real list list \<Rightarrow> bool" where
  "plane_fits self p = (y2 self \<le> length p \<and> list_all (\<lambda>r. x2 self \<le> length r) p)"

definition fits :: "griddap \<Rightarrow> ndarray \<Rightarrow> nat \<Rightarrow> nat \<Rightarrow> bool" where
  "fits self var ta tb =
     (x1 self \<le> x2 self \<and> y1 self \<le> y2 self \<and>
      nx self = int (x2 self) - int (x1 self) \<and> ny self = int (y2 self) - int (y1 self) \<and>
      (case var of
         A1 v \<Rightarrow> False
       | A2 v \<Rightarrow> True
       | A3 v \<Rightarrow>
           tb \<le> length v \<and> int tb - int ta \<le> nt self \<and> 0 \<le> nt self \<and>
           list_all (plane_fits self) v
       | A4 v \<Rightarrow>
           Z self \<noteq> None \<and> z1 self \<le> z2 self \<and> nz self = int (z2 self) - int (z1 self) \<and>
           tb \<le> length v \<and> int tb - int ta \<le> nt self \<and> 0 \<le> nt self \<and>
           list_all (\<lambda>c. z2 self \<le> length c \<and> list_all (plane_fits self) c) v))"









definition final_store :: "(error + ndarray \<times> getdap \<times> nat) option \<Rightarrow> store option" where
  "final_store r = (case r of Some (Inr (d, g, k)) \<Rightarrow> outnc g | _ \<Rightarrow> None)"

section \<open>Example inputs\<close>

text \<open>
  Concrete collaborators for the examples: every request goes through and \<open>exact_index\<close>
  is an exact lookup of a timestamp.
\<close>

definition exact_index :: "datetime \<Rightarrow> datetime list \<Rightarrow> nat option" where
  "exact_index t ts = (case argwhere (\<lambda>x. x = t) ts of [] \<Rightarrow> None | i # _ \<Rightarrow> Some i)"

definition env_ok :: env where
  "env_ok =
     \<lparr>world = Map.empty, ok = (\<lambda>k. True), strftime = (\<lambda>t. replicate (nat t) CHR ''s''),
      strptime = (\<lambda>s. Some (int (length s))),
      findNearest = (\<lambda>t ts. find_nearest_1d (map real_of_int ts) (real_of_int t)),
      date2index = exact_index\<rparr>"

text \<open>
  A file with three time steps, the 3-D variables \<^verbatim>\<open>temp\<close> and \<^verbatim>\<open>salt\<close> of one grid point per
  step and a 2-D variable \<^verbatim>\<open>h\<close>; a \<^verbatim>\<open>GridDAP\<close> on it as \<^verbatim>\<open>__init__\<close> leaves it.
\<close>

definition file3 :: ncfile where
  "file3 =
     \<lparr>timevars = [''time'' \<mapsto> [0, 1, 2]],
      variables = [''temp'' \<mapsto> A3 [[[1]], [[2]], [[3]]], ''salt'' \<mapsto> A3 [[[4]], [[5]], [[6]]],
                   ''h'' \<mapsto> A2 [[1, 2], [3, 4]]]\<rparr>"

definition dap3 :: griddap where
  "dap3 =
     \<lparr>multifile = False, graball = True, nc = file3, ncfiles = [], MF = None,
      timecoord = Some ''time'', XY = Grid1 [0, 1, 2] [0, 1, 2], Z = None, time = [],
      localtime = [], localXY = Grid1 [] [], localZ = [], t1 = 0, t2 = 0, x1 = 0, x2 = 0,
      y1 = 0, y2 = 0, z1 = 0, z2 = 0, nt = 0, nx = 0, ny = 0, nz = 0\<rparr>"

text \<open>The same object with the window of all three records of the one grid point.\<close>

definition dap3w :: griddap where
  "dap3w = dap3\<lparr>t2 := 3, x2 := 1, y2 := 1, nt := 3, nx := 1, ny := 1\<rparr>"

text \<open>An output file that holds three time values, and a session on two variables.\<close>

definition store3 :: store where
  "store3 = \<lparr>vars = [''time'' \<mapsto> VTime [0, 1, 2]], written = []\<rparr>"


text \<open>
  Two files of six records each whose time axes share the timestamp 5, with the 3-D
  variable \<^verbatim>\<open>temp\<close> (one grid point per record).
\<close>

definition fileA :: ncfile where
  "fileA =
     \<lparr>timevars = [''time'' \<mapsto> [0, 1, 2, 3, 4, 5]],
      variables = [''temp'' \<mapsto> A3 [[[10]], [[11]], [[12]], [[13]], [[14]], [[15]]]]\<rparr>"

definition fileB :: ncfile where
  "fileB =
     \<lparr>timevars = [''time'' \<mapsto> [5, 6, 7, 8, 9, 10]],
      variables = [''temp'' \<mapsto> A3 [[[20]], [[21]], [[22]], [[23]], [[24]], [[25]]]]\<rparr>"

definition env_ab :: env where
  "env_ab = env_ok\<lparr>world := [''a.nc'' \<mapsto> fileA, ''b.nc'' \<mapsto> fileB]\<rparr>"

text \<open>
  The same files behind a connection that fails requests 0 and 2, every request, or
  request 0.
\<close>

definition env_flaky :: env where
  "env_flaky = env_ab\<lparr>ok := (\<lambda>k. k \<noteq> 0 \<and> k \<noteq> 2)\<rparr>"

definition env_down :: env where
  "env_down = env_ab\<lparr>ok := (\<lambda>k. False)\<rparr>"

definition env_first_fails :: env where
  "env_first_fails = env_ab\<lparr>ok := (\<lambda>k. k \<noteq> 0)\<rparr>"




definition dapAB :: griddap where
  "dapAB =
     dap3\<lparr>multifile := True, nc := fileA, ncfiles := [''a.nc'', ''b.nc''], XY := Grid1 [0] [0]\<rparr>"

text \<open>A file with ten time steps and a \<^verbatim>\<open>GridDAP\<close> on it.\<close>

definition file10 :: ncfile where
  "file10 =
     \<lparr>timevars = [''time'' \<mapsto> [0, 1, 2, 3, 4, 5, 6, 7, 8, 9]],
      variables = [''temp'' \<mapsto> A3 [[[0]], [[1]], [[2]], [[3]], [[4]], [[5]], [[6]], [[7]], [[8]], [[9]]]]\<rparr>"

definition dap10 :: griddap where
  "dap10 = dap3\<lparr>nc := file10, XY := Grid1 [0] [0]\<rparr>"

text \<open>
  A session on the variable \<^verbatim>\<open>temp\<close> of \<open>fileA\<close>, as \<^verbatim>\<open>GetDAP.__init__\<close> leaves it, and two calls
  of it with the output file \<^verbatim>\<open>out.nc\<close>: the first for the time range 0 to 3, the second
  for 2 to 5.
\<close>

definition dapA :: griddap where
  "dapA = dap3\<lparr>nc := fileA, XY := Grid1 [0] [0]\<rparr>"

definition getdapA :: getdap where
  "getdapA =
     \<lparr>varnames = [''temp''], remote = [''temp'' \<mapsto> ''temp''], dap = [''temp'' \<mapsto> dapA],
      coord_names = [''temp'' \<mapsto> (Some ''time'', ''lon'', ''lat'', None)],
      outnc = None, tindex = (0, 0)\<rparr>"

definition two_calls :: "(error + ndarray \<times> getdap \<times> nat) option" where
  "two_calls =
     (case GetDAP_call env_ok getdapA None None (TDates 0 3) None (Some ''out.nc'') 0 of
        Some (Inr (d, g, k)) \<Rightarrow>
          GetDAP_call env_ok g None None (TDates 2 5) None (Some ''out.nc'') k
      | r \<Rightarrow> r)"

text \<open>
  The session after the first of the two calls and the retrieval of the second window:
  the store holds the timestamps 0, 1, 2 with their records, the new window is 2, 3, 4.
\<close>

definition storeA :: store where
  "storeA =
     \<lparr>vars = [''lon'' \<mapsto> VCoord (A1 [0]), ''lat'' \<mapsto> VCoord (A1 [0]),
              ''time'' \<mapsto> VTime [0, 1, 2],
              ''temp'' \<mapsto> VData [Some (A2 [[10]]), Some (A2 [[11]]), Some (A2 [[12]])]],
      written = [(''temp'', 0), (''temp'', 1), (''temp'', 2)]\<rparr>"

definition getdapA1 :: getdap where
  "getdapA1 =
     getdapA\<lparr>dap := [''temp'' \<mapsto> dapA\<lparr>localtime := [2, 3, 4], localXY := Grid1 [0] [0]\<rparr>],
              outnc := Some storeA, tindex := (0, 3)\<rparr>"

text \<open>
  The multi-file object on \<open>fileA\<close> and \<open>fileB\<close> after \<^verbatim>\<open>get_data\<close> has resolved the window of
  the time range 3 to 7.
\<close>

definition dapABw :: griddap where
  "dapABw =
     (case ebind (get_indices None None None dapAB) (get_time_indices env_ab (Some (3, 7))) of
        Inr s \<Rightarrow> s\<lparr>localtime := slice (t1 s) (t2 s) (time s)\<rparr>
      | Inl e \<Rightarrow> dapAB)"

section \<open>Properties\<close>

subsection \<open>The time range of a top-level call\<close>

text \<open>
  C2.  A call of \<^verbatim>\<open>GetDAP\<close> with \<^verbatim>\<open>trange=None\<close> does not return an array of ten records:
  whatever the object, the ranges and the variable, \<^verbatim>\<open>check_trange\<close> subscripts \<^verbatim>\<open>None\<close>
  and the call raises \<^verbatim>\<open>TypeError\<close> before any variable is loaded.
\<close>

theorem GetDAP_call_trange_None:
  "GetDAP_call E self xrange yrange TNone zrange outfile k = Some (Inl TypeError)"
  by (simp add: GetDAP_call_def check_trange_def)

text \<open>
  Below that call \<^verbatim>\<open>None\<close> is accepted: \<^verbatim>\<open>GridDAP.get_data\<close> with \<^verbatim>\<open>trange=None\<close> on a variable
  of ten time steps returns an array of ten records.
\<close>

lemma get_data_trange_None_full_axis:
  "map_option (map_sum id (\<lambda>(d, s, k). shape d))
     (get_data env_ok dap10 ''temp'' None None None None 0) = Some (Inr [10, 1, 1])"
  by code_simp

subsection \<open>Index windows\<close>

text \<open>
  The time window is widened when its start and end coincide, and so is the depth
  window of a requested range: neither has length 0.
\<close>

lemma time_window_widened:
  assumes "get_time_indices E trange self = Inr self'"
  shows "t1 self' \<noteq> t2 self' \<and> nt self' = int (t2 self') - int (t1 self')"
  using assms
  by (auto simp: get_time_indices_def ebind_def Let_def
      split: sum.splits prod.splits if_splits option.splits)

lemma depth_window_widened:
  assumes "z_indices zs (Some r) = Inr (za, zb)"
  shows "za \<noteq> zb"
  using assms by (auto simp: z_indices_def ebind_def split: sum.splits prod.splits if_splits)

text \<open>
  C3.  The window of the x axis is not widened: on the axis \<open>[0, 1, 2]\<close> the requested
  range \<open>(1, 1)\<close> resolves to start 1 and end 1, a window of length 0.
\<close>

theorem get_indices_point_request:
  "map_sum id (\<lambda>s. (x1 s, x2 s, nx s)) (get_indices (Some (1, 1)) None None dap3)
     = Inr (1, 1, 0)"
  by (simp add: get_indices_def xy_indices_def nearest_pair_def find_nearest_1d_def
      array_min_def argwhere_def ebind_def dap3_def)

subsection \<open>Retrieval from one file\<close>

text \<open>
  C8.  For a variable of two dimensions \<^verbatim>\<open>get_data_singlefile\<close> returns the 2-D slice
  itself: for the window \<open>0:2, 0:2\<close> of \<^verbatim>\<open>h\<close> an array of shape \<open>(2, 2)\<close>, not \<open>(1, 2, 2)\<close>.
\<close>

theorem get_2d_shape:
  "map_option (map_sum id (\<lambda>(d, s, k). (d, shape d)))
     (get_data_singlefile env_ok (dap3\<lparr>x2 := 2, y2 := 2, nx := 2, ny := 2\<rparr>) ''h'' file3 0 1 0)
   = Some (Inr (A2 [[1, 2], [3, 4]], [2, 2]))"
  by (simp add: get_data_singlefile_def file3_def dap3_def env_ok_def zeros3_def get_2d.simps
      slice2_def slice_def shape1_def)

text \<open>
  C6.  Two windows on which the fallback returns another array than the bulk read.
  In a single file the bulk read of three records fails (request 0), the first record is
  read (request 1), the second fails once (request 2) and every later request goes
  through: the fallback returns the records 2, 3 and a row of zeros, the bulk read the
  records 1, 2, 3.  In the multi-file window of four timestamps, the records 3 and 4 of
  \<^verbatim>\<open>a.nc\<close> are requested; the bulk read fails and every step read goes through: the fallback
  returns four rows, the bulk read two.
\<close>

theorem fallback_differs_from_bulk:
  "map_option (map_sum id fst) (get_data_singlefile env_flaky dap3w ''temp'' file3 0 3 0)
     = Some (Inr (A3 [[[2]], [[3]], [[0]]])) \<and>
   map_option (map_sum id fst) (get_data_singlefile env_ok dap3w ''temp'' file3 0 3 0)
     = Some (Inr (A3 [[[1]], [[2]], [[3]]])) \<and>
   map_option (map_sum id fst) (get_data_singlefile env_first_fails dapABw ''temp'' fileA 3 5 0)
     = Some (Inr (A3 [[[13]], [[14]], [[0]], [[0]]])) \<and>
   map_option (map_sum id fst) (get_data_singlefile env_ab dapABw ''temp'' fileA 3 5 0)
     = Some (Inr (A3 [[[13]], [[14]]]))"
  by code_simp

subsection \<open>The append offset of the output store\<close>

lemma argwhere_hd:
  assumes "argwhere P xs = i # r"
  shows "i < length xs \<and> P (xs ! i)"
proof -
  have "i \<in> set (argwhere P xs)" using assms by simp
  then show ?thesis by (auto simp: argwhere_def)
qed

lemma exact_index_exact:
  "exact_index t ts = Some i \<Longrightarrow> i < length ts \<and> ts ! i = t"
  using argwhere_hd [of "\<lambda>x. x = t" ts]
  by (auto simp: exact_index_def split: list.splits)

text \<open>
  C7.  The store has the time variable \<open>tc\<close> with the values \<open>lt\<close>, and \<open>tout\<close> is the new
  window (both not empty); \<^verbatim>\<open>date2index\<close> returns only exact positions.  The offset \<open>ta\<close> is
  the position \<^verbatim>\<open>date2index\<close> finds for the first new timestamp, at which the stored axis
  holds that timestamp; when the lookup raises it is 1 if the first new timestamp is
  later than the first stored one and 0 otherwise.  \<^verbatim>\<open>tindex\<close> is \<open>(ta, ta + length tout)\<close>.
  The time values are written only when the stored axis is shorter than the end of the
  window: the axis then keeps its first \<open>ta\<close> values, followed by the new window; otherwise
  the store is returned as it was.
\<close>

theorem write_time_var_append_offset:
  assumes tv: "vars s tc = Some (VTime lt)"
    and tout: "tout \<noteq> []"
    and lt: "lt \<noteq> []"
    and exact: "\<forall>t ts i. date2index E t ts = Some i \<longrightarrow> i < length ts \<and> ts ! i = t"
  shows "let ta = (case date2index E (hd tout) lt of
                     Some i \<Rightarrow> i
                   | None \<Rightarrow> if hd lt < hd tout then 1 else 0);
             tb = ta + length tout
         in (date2index E (hd tout) lt \<noteq> None \<longrightarrow> ta < length lt \<and> lt ! ta = hd tout)
          \<and> write_time_var E tout (Some tc) s =
              Inr (if length lt < tb
                   then s\<lparr>vars := (vars s)(tc \<mapsto> VTime (take ta lt @ tout))\<rparr>
                   else s, (ta, tb))"
proof -
  obtain t0 tr where t0: "tout = t0 # tr" using tout by (cases tout) auto
  obtain l0 lr where l0: "lt = l0 # lr" using lt by (cases lt) auto
  show ?thesis
  proof (cases "date2index E t0 lt")
    case None
    then show ?thesis
      using tv by (simp add: write_time_var_def hasvar_def t0 l0 ebind_def assign_slice_def Let_def)
  next
    case (Some i)
    with exact have i: "i < length lt" "lt ! i = t0" by auto
    then show ?thesis
      using tv Some
      by (simp add: write_time_var_def hasvar_def t0 ebind_def assign_slice_def Let_def)
  qed
qed

theorem write_time_var_append_offset_witness:
  "write_time_var env_ok [2, 3] (Some ''time'') store3
     = Inr (store3\<lparr>vars := (vars store3)(''time'' \<mapsto> VTime [0, 1, 2, 3])\<rparr>, (2, 4))"
proof -
  have ex: "\<forall>t ts i. date2index env_ok t ts = Some i \<longrightarrow> i < length ts \<and> ts ! i = t"
    using exact_index_exact by (simp add: env_ok_def)
  have v: "vars store3 ''time'' = Some (VTime [0, 1, 2])" by (simp add: store3_def)
  have d: "date2index env_ok 2 [0, 1, 2] = Some 2"
    by (simp add: env_ok_def exact_index_def argwhere_def)
  show ?thesis
    using write_time_var_append_offset [OF v _ _ ex, of "[2, 3]"] d
    by (simp add: Let_def)
qed

subsection \<open>The value of a top-level call\<close>






subsection \<open>The aggregated time axis\<close>

lemma snd_enumerate_nth:
  assumes "p \<in> set (enumerate n xs)"
  obtains m where "m < length xs" "snd p = xs ! m"
proof -
  have "snd ` set (enumerate n xs) = set xs" by (metis map_snd_enumerate set_map)
  with assms have "snd p \<in> set xs" by blast
  then show thesis using that by (auto simp: in_set_conv_nth)
qed

lemma enter_other:
  "\<forall>p \<in> set es. fmt (snd p) \<noteq> key \<Longrightarrow> enter fmt f es lk key = lk key"
  by (induction es arbitrary: lk) auto

lemma enter_last:
  assumes "i < length tm" and "fmt (tm ! i) = key"
    and "\<forall>i'. i < i' \<and> i' < length tm \<longrightarrow> fmt (tm ! i') \<noteq> key"
  shows "enter fmt f (enumerate n tm) lk key = Some (f, n + i)"
  using assms
proof (induction tm arbitrary: n lk i)
  case Nil
  then show ?case by simp
next
  case (Cons t ts)
  show ?case
  proof (cases i)
    case 0
    have "\<forall>p \<in> set (enumerate (Suc n) ts). fmt (snd p) \<noteq> key"
    proof
      fix p assume "p \<in> set (enumerate (Suc n) ts)"
      then obtain m where "m < length ts" "snd p = ts ! m"
        by (rule snd_enumerate_nth)
      with Cons.prems(3) [rule_format, of "Suc m"] 0 show "fmt (snd p) \<noteq> key" by simp
    qed
    from enter_other [OF this] Cons.prems 0 show ?thesis by simp
  next
    case (Suc m)
    have "enter fmt f (enumerate (Suc n) ts) (lk(fmt t \<mapsto> (f, n))) key = Some (f, Suc n + m)"
    proof (rule Cons.IH)
      show "m < length ts" using Cons.prems Suc by simp
      show "fmt (ts ! m) = key" using Cons.prems Suc by simp
      show "\<forall>i'. m < i' \<and> i' < length ts \<longrightarrow> fmt (ts ! i') \<noteq> key"
        using Cons.prems(3) Suc by (metis Suc_less_eq length_Cons nth_Cons_Suc)
    qed
    then show ?thesis using Suc by simp
  qed
qed

lemma init_loop_step:
  "init_loop E tv (f # fs) lk ta = Inr r \<Longrightarrow>
     \<exists>tm. file_time E tv f = Some tm \<and>
       init_loop E tv fs (enter (strftime E) f (enumerate 0 tm) lk) (ta @ [tm]) = Inr r"
  by (auto simp: file_time_def ebind_def split: option.splits sum.splits)

lemma init_loop_other:
  "init_loop E tv fs lk ta = Inr (lk', ta') \<Longrightarrow>
   \<forall>f \<in> set fs. \<forall>tm. file_time E tv f = Some tm \<longrightarrow> key \<notin> strftime E ` set tm \<Longrightarrow>
   lk' key = lk key"
proof (induction fs arbitrary: lk ta)
  case Nil
  then show ?case by simp
next
  case (Cons f fs)
  from init_loop_step [OF Cons.prems(1)] obtain tm where
    tm: "file_time E tv f = Some tm" and
    r: "init_loop E tv fs (enter (strftime E) f (enumerate 0 tm) lk) (ta @ [tm]) = Inr (lk', ta')"
    by auto
  have "lk' key = enter (strftime E) f (enumerate 0 tm) lk key"
    using Cons.IH [OF r] Cons.prems(2) by simp
  also have "\<dots> = lk key"
  proof (rule enter_other)
    show "\<forall>p\<in>set (enumerate 0 tm). strftime E (snd p) \<noteq> key"
    proof
      fix p assume "p \<in> set (enumerate 0 tm)"
      then obtain m where "m < length tm" "snd p = tm ! m" by (rule snd_enumerate_nth)
      with Cons.prems(2) tm show "strftime E (snd p) \<noteq> key" by auto
    qed
  qed
  finally show ?case .
qed

lemma init_loop_last:
  assumes "init_loop E tv fs lk ta = Inr (lk', ta')"
    and "j < length fs" and "file_time E tv (fs ! j) = Some tm" and "i < length tm"
    and "\<forall>i'. i < i' \<and> i' < length tm \<longrightarrow> strftime E (tm ! i') \<noteq> strftime E (tm ! i)"
    and "\<forall>j' tm'. j < j' \<and> j' < length fs \<and> file_time E tv (fs ! j') = Some tm'
            \<longrightarrow> strftime E (tm ! i) \<notin> strftime E ` set tm'"
  shows "lk' (strftime E (tm ! i)) = Some (fs ! j, i)"
  using assms
proof (induction fs arbitrary: lk ta j)
  case Nil
  then show ?case by simp
next
  case (Cons f fs)
  from init_loop_step [OF Cons.prems(1)] obtain tm0 where
    tm0: "file_time E tv f = Some tm0" and
    r: "init_loop E tv fs (enter (strftime E) f (enumerate 0 tm0) lk) (ta @ [tm0]) = Inr (lk', ta')"
    by auto
  show ?case
  proof (cases j)
    case 0
    with Cons.prems tm0 have eq: "tm0 = tm" by simp
    have other: "\<forall>g \<in> set fs. \<forall>tm'. file_time E tv g = Some tm'
                   \<longrightarrow> strftime E (tm ! i) \<notin> strftime E ` set tm'"
    proof (intro ballI allI impI)
      fix g tm' assume g: "g \<in> set fs" and t: "file_time E tv g = Some tm'"
      from g obtain m where m: "m < length fs" "fs ! m = g" by (auto simp: in_set_conv_nth)
      from Cons.prems(6) [rule_format, of "Suc m" tm'] 0 m t
      show "strftime E (tm ! i) \<notin> strftime E ` set tm'" by simp
    qed
    have "lk' (strftime E (tm ! i)) = enter (strftime E) f (enumerate 0 tm0) lk (strftime E (tm ! i))"
      by (rule init_loop_other [OF r other])
    also have "\<dots> = Some (f, 0 + i)"
      unfolding eq by (rule enter_last) (use Cons.prems in auto)
    finally show ?thesis using 0 by simp
  next
    case (Suc m)
    have "lk' (strftime E (tm ! i)) = Some (fs ! m, i)"
    proof (rule Cons.IH [OF r])
      show "m < length fs" using Cons.prems Suc by simp
      show "file_time E tv (fs ! m) = Some tm" using Cons.prems Suc by simp
      show "i < length tm" by fact
      show "\<forall>i'. i < i' \<and> i' < length tm \<longrightarrow> strftime E (tm ! i') \<noteq> strftime E (tm ! i)" by fact
      show "\<forall>j' tm'. m < j' \<and> j' < length fs \<and> file_time E tv (fs ! j') = Some tm'
              \<longrightarrow> strftime E (tm ! i) \<notin> strftime E ` set tm'"
      proof (intro allI impI)
        fix j' tm' assume a: "m < j' \<and> j' < length fs \<and> file_time E tv (fs ! j') = Some tm'"
        from Cons.prems(6) [rule_format, of "Suc j'" tm'] a Suc
        show "strftime E (tm ! i) \<notin> strftime E ` set tm'" by simp
      qed
    qed
    then show ?thesis using Suc by simp
  qed
qed

lemma init_loop_timeall:
  "init_loop E tv fs lk ta = Inr (lk', ta') \<Longrightarrow>
     \<exists>tms. ta' = ta @ tms \<and> map (file_time E tv) fs = map Some tms"
proof (induction fs arbitrary: lk ta)
  case Nil
  then show ?case by simp
next
  case (Cons f fs)
  from init_loop_step [OF Cons.prems(1)] obtain tm where
    tm: "file_time E tv f = Some tm" and
    r: "init_loop E tv fs (enter (strftime E) f (enumerate 0 tm) lk) (ta @ [tm]) = Inr (lk', ta')"
    by auto
  from Cons.IH [OF r] obtain tms where "ta' = (ta @ [tm]) @ tms" "map (file_time E tv) fs = map Some tms"
    by auto
  then show ?case using tm by (intro exI [of _ "tm # tms"]) simp
qed

lemma np_array_Inr: "np_array xss = Inr arr \<Longrightarrow> arr = xss"
  by (auto simp: np_array_def split: list.splits if_splits)

lemma MFncdap_init_parts:
  assumes "MFncdap_init E tv files = Inr mf"
  shows "\<exists>lk tms. init_loop E tv files Map.empty [] = Inr (lk, tms) \<and> timelookup mf = lk \<and>
           mftime mf = np_unique tms \<and> map (file_time E tv) files = map Some tms"
proof -
  from assms obtain lk tms arr where
    l: "init_loop E tv files Map.empty [] = Inr (lk, tms)" and a: "np_array tms = Inr arr" and
    mf: "mf = \<lparr>ncfilelist = files, timelookup = lk, mftime = np_unique arr\<rparr>"
    by (auto simp: MFncdap_init_def ebind_def split: sum.splits prod.splits)
  from init_loop_timeall [OF l] have "map (file_time E tv) files = map Some tms" by auto
  with l mf np_array_Inr [OF a] show ?thesis by auto
qed

text \<open>
  C4.  The aggregation of the list \<open>files\<close> succeeded.  File \<open>j\<close> of the list reports the
  timestamp \<open>tm ! i\<close> at its index \<open>i\<close>, and nothing processed later (a later index of the
  same file, a later file of the list) reports a timestamp with the same formatted key:
  it is the last writer.  Then the lookup maps the timestamp to that file and index, and
  the logical time axis is sorted, holds no timestamp twice and holds exactly the
  timestamps the files report.
\<close>

theorem aggregated_lookup_last_writer:
  assumes init: "MFncdap_init E tv files = Inr mf"
    and j: "j < length files" and tm: "file_time E tv (files ! j) = Some tm" and i: "i < length tm"
    and later_same: "\<forall>i'. i < i' \<and> i' < length tm \<longrightarrow> strftime E (tm ! i') \<noteq> strftime E (tm ! i)"
    and later_files: "\<forall>j' tm'. j < j' \<and> j' < length files \<and> file_time E tv (files ! j') = Some tm'
            \<longrightarrow> strftime E (tm ! i) \<notin> strftime E ` set tm'"
  shows "timelookup mf (strftime E (tm ! i)) = Some (files ! j, i) \<and>
         sorted (mftime mf) \<and> distinct (mftime mf) \<and>
         set (mftime mf) = {t. \<exists>f \<in> set files. \<exists>tm'. file_time E tv f = Some tm' \<and> t \<in> set tm'}"
proof -
  from MFncdap_init_parts [OF init] obtain lk tms where
    l: "init_loop E tv files Map.empty [] = Inr (lk, tms)" and lk: "timelookup mf = lk" and
    ax: "mftime mf = np_unique tms" and tms: "map (file_time E tv) files = map Some tms"
    by auto
  have "lk (strftime E (tm ! i)) = Some (files ! j, i)"
    by (rule init_loop_last [OF l j tm i later_same later_files])
  moreover have "sorted (mftime mf)" "distinct (mftime mf)"
    by (simp_all add: ax np_unique_def)
  moreover have "set (mftime mf) = {t. \<exists>f \<in> set files. \<exists>tm'. file_time E tv f = Some tm' \<and> t \<in> set tm'}"
  proof -
    have len: "length tms = length files" using tms by (metis length_map)
    have nth: "\<And>m. m < length files \<Longrightarrow> file_time E tv (files ! m) = Some (tms ! m)"
      using tms len by (metis nth_map)
    show ?thesis
    proof (intro set_eqI iffI)
      fix t assume "t \<in> set (mftime mf)"
      then obtain xs where "xs \<in> set tms" "t \<in> set xs" by (auto simp: ax np_unique_def)
      then obtain m where "m < length tms" "tms ! m = xs" by (auto simp: in_set_conv_nth)
      with nth len \<open>t \<in> set xs\<close> show "t \<in> {t. \<exists>f \<in> set files. \<exists>tm'. file_time E tv f = Some tm' \<and> t \<in> set tm'}"
        by (auto intro!: bexI [of _ "files ! m"])
    next
      fix t assume "t \<in> {t. \<exists>f \<in> set files. \<exists>tm'. file_time E tv f = Some tm' \<and> t \<in> set tm'}"
      then obtain f tm' where f: "f \<in> set files" "file_time E tv f = Some tm'" "t \<in> set tm'" by auto
      from f(1) obtain m where "m < length files" "files ! m = f" by (auto simp: in_set_conv_nth)
      with nth f len have "tm' \<in> set tms" by (metis nth_mem option.inject)
      with f show "t \<in> set (mftime mf)" by (auto simp: ax np_unique_def)
    qed
  qed
  ultimately show ?thesis using lk by simp
qed

theorem aggregated_lookup_last_writer_witness:
  "\<exists>mf. MFncdap_init env_ab (Some ''time'') [''a.nc'', ''b.nc''] = Inr mf \<and>
     file_time env_ab (Some ''time'') ''a.nc'' = Some [0, 1, 2, 3, 4, 5] \<and>
     file_time env_ab (Some ''time'') ''b.nc'' = Some [5, 6, 7, 8, 9, 10] \<and>
     timelookup mf (strftime env_ab 5) = Some (''b.nc'', 0) \<and>
     sorted (mftime mf) \<and> distinct (mftime mf) \<and> 5 \<in> set (mftime mf)"
proof -
  have fa: "file_time env_ab (Some ''time'') ''a.nc'' = Some [0, 1, 2, 3, 4, 5]"
    by (simp add: file_time_def env_ab_def env_ok_def fileA_def gettime_def)
  have "\<exists>mf. MFncdap_init env_ab (Some ''time'') [''a.nc'', ''b.nc''] = Inr mf"
    by (simp add: MFncdap_init_def env_ab_def env_ok_def fileA_def fileB_def gettime_def
        ebind_def np_array_def)
  then obtain mf where mf: "MFncdap_init env_ab (Some ''time'') [''a.nc'', ''b.nc''] = Inr mf" ..
  have ft: "file_time env_ab (Some ''time'') ([''a.nc'', ''b.nc''] ! 1) = Some [5, 6, 7, 8, 9, 10]"
    by (simp add: file_time_def env_ab_def env_ok_def fileB_def gettime_def)
  have inj: "\<And>a b. strftime env_ab a = strftime env_ab b \<longleftrightarrow> nat a = nat b"
    by (simp add: env_ab_def env_ok_def replicate_eq_replicate)
  have same: "\<forall>i'. 0 < i' \<and> i' < length [5, 6, 7, 8, 9, 10 :: int]
      \<longrightarrow> strftime env_ab ([5, 6, 7, 8, 9, 10] ! i') \<noteq> strftime env_ab ([5, 6, 7, 8, 9, 10] ! 0)"
    by (auto simp: inj less_Suc_eq nth_Cons')
  have files: "\<forall>j' tm'. 1 < j' \<and> j' < length [''a.nc'', ''b.nc''] \<and>
        file_time env_ab (Some ''time'') ([''a.nc'', ''b.nc''] ! j') = Some tm'
      \<longrightarrow> strftime env_ab ([5, 6, 7, 8, 9, 10] ! 0) \<notin> strftime env_ab ` set tm'"
    by (auto simp: less_Suc_eq)
  from aggregated_lookup_last_writer [OF mf _ ft _ same files]
  have "timelookup mf (strftime env_ab 5) = Some (''b.nc'', 0) \<and>
        sorted (mftime mf) \<and> distinct (mftime mf) \<and>
        set (mftime mf) = {t. \<exists>f \<in> set [''a.nc'', ''b.nc'']. \<exists>tm'.
           file_time env_ab (Some ''time'') f = Some tm' \<and> t \<in> set tm'}"
    by simp
  moreover have "file_time env_ab (Some ''time'') ''b.nc'' = Some [5, 6, 7, 8, 9, 10]"
    using ft by simp
  ultimately show ?thesis using mf fa by auto
qed

subsection \<open>Retries\<close>

lemma get_2d_returns:
  "ok E n \<Longrightarrow> k \<le> n \<Longrightarrow>
     \<exists>k'. get_2d E self v k = Some (slice2 (y1 self) (y2 self) (x1 self) (x2 self) v, k')"
proof (induction "n - k" arbitrary: k)
  case 0
  then show ?case by (subst get_2d.simps) simp
next
  case (Suc d)
  show ?case
  proof (cases "ok E k")
    case True
    then show ?thesis by (subst get_2d.simps) simp
  next
    case False
    have "\<exists>k'. get_2d E self v (Suc k) = Some (slice2 (y1 self) (y2 self) (x1 self) (x2 self) v, k')"
      using Suc by (intro Suc.hyps(1)) auto
    with False show ?thesis by (subst get_2d.simps) simp
  qed
qed

lemma get_2d_Some_ok:
  "get_2d E self v k = Some r \<Longrightarrow> \<exists>n\<ge>k. ok E n"
proof (induction rule: get_2d.raw_induct [rotated 1, consumes 1])
  case (1 get_2d E self v k r)
  show ?case
  proof (cases "ok E k")
    case True
    then show ?thesis by auto
  next
    case False
    with 1(2) have "get_2d E self v (Suc k) = Some r" by simp
    from 1(1) [OF this] show ?thesis by (meson Suc_leD)
  qed
qed

lemma get_2d_never: "\<forall>n\<ge>k. \<not> ok E n \<Longrightarrow> get_2d E self v k = None"
  using get_2d_Some_ok [of E self v k] by (cases "get_2d E self v k") auto

lemma openfile_returns:
  "world E ff = Some f \<Longrightarrow> ok E n \<Longrightarrow> k \<le> n \<Longrightarrow> \<exists>k'. openfile E ff k = Some (f, k')"
proof (induction "n - k" arbitrary: k)
  case 0
  then show ?case by (subst openfile.simps) simp
next
  case (Suc d)
  show ?case
  proof (cases "ok E k")
    case True
    with Suc.prems show ?thesis by (subst openfile.simps) simp
  next
    case False
    have "\<exists>k'. openfile E ff (Suc k) = Some (f, k')"
      using Suc by (intro Suc.hyps(1)) auto
    with False show ?thesis by (subst openfile.simps) simp
  qed
qed

lemma openfile_Some_ok:
  "openfile E ff k = Some r \<Longrightarrow> \<exists>n\<ge>k. ok E n \<and> world E ff = Some (fst r)"
proof (induction rule: openfile.raw_induct [rotated 1, consumes 1])
  case (1 openfile E ff k r)
  show ?case
  proof (cases "ok E k \<and> world E ff \<noteq> None")
    case True
    with 1(2) have "ok E k \<and> world E ff = Some (fst r)" by auto
    then show ?thesis by (intro exI [of _ k]) simp
  next
    case False
    with 1(2) have "openfile E ff (Suc k) = Some r" by (auto split: if_splits option.splits)
    from 1(1) [OF this] show ?thesis by (meson Suc_leD)
  qed
qed

lemma openfile_never: "\<forall>n\<ge>k. \<not> ok E n \<Longrightarrow> openfile E ff k = None"
  using openfile_Some_ok [of E ff k] by (cases "openfile E ff k") auto

lemma step_loop_cases:
  assumes put_ok: "\<And>data ii tt. I data \<Longrightarrow> ii < N \<Longrightarrow> tt < tb \<Longrightarrow>
              \<exists>x data'. rd tt = Some x \<and> put data ii x = Some data' \<and> I data'"
    and "I data" and "ii + (tb - tt) \<le> N"
  shows "(\<exists>d' k'. step_loop E rd put (enumerate ii [tt..<tb]) data k = Inr (d', k')) \<or>
         (\<exists>tt' d' k'. step_loop E rd put (enumerate ii [tt..<tb]) data k = Inl (tt', d', k') \<and>
            I d' \<and> tt \<le> tt' \<and> tt' < tb \<and> (tt' = tt \<longrightarrow> \<not> ok E k \<and> k' = Suc k))"
  using assms(2,3)
proof (induction "tb - tt" arbitrary: tt ii data k)
  case 0
  then show ?case by simp
next
  case (Suc n)
  then have lt: "tt < tb" by simp
  then have l: "enumerate ii [tt..<tb] = (ii, tt) # enumerate (Suc ii) [Suc tt..<tb]"
    by (simp add: upt_conv_Cons)
  show ?case
  proof (cases "ok E k")
    case False
    then show ?thesis using l lt Suc.prems by simp
  next
    case True
    have "ii < N" using Suc.prems lt by simp
    from put_ok [OF Suc.prems(1) this lt] obtain x data' where
      x: "rd tt = Some x" "put data ii x = Some data'" "I data'" by auto
    have step: "step_loop E rd put (enumerate ii [tt..<tb]) data k
                  = step_loop E rd put (enumerate (Suc ii) [Suc tt..<tb]) data' (Suc k)"
      using l True x by simp
    have "(\<exists>d' k'. step_loop E rd put (enumerate (Suc ii) [Suc tt..<tb]) data' (Suc k) = Inr (d', k')) \<or>
         (\<exists>tt' d' k'. step_loop E rd put (enumerate (Suc ii) [Suc tt..<tb]) data' (Suc k) = Inl (tt', d', k') \<and>
            I d' \<and> Suc tt \<le> tt' \<and> tt' < tb \<and> (tt' = Suc tt \<longrightarrow> \<not> ok E (Suc k) \<and> k' = Suc (Suc k)))"
    proof (rule Suc.hyps(1))
      show "n = tb - Suc tt" using Suc.hyps(2) by simp
      show "I data'" by fact
      show "Suc ii + (tb - Suc tt) \<le> N" using Suc.prems lt by simp
    qed
    then show ?thesis unfolding step by auto
  qed
qed

lemma get_step_returns:
  assumes put_ok: "\<And>data ii tt. I data \<Longrightarrow> ii < N \<Longrightarrow> tt < tb \<Longrightarrow>
              \<exists>x data'. rd tt = Some x \<and> put data ii x = Some data' \<and> I data'"
    and recurring: "\<forall>n. \<exists>m\<ge>n. ok E m"
    and "I data" and "tb - tstart \<le> N"
  shows "\<exists>r. get_step E rd put tb data tstart k = Some r"
  using assms(3,4)
proof (induction "tb - tstart" arbitrary: tstart data k rule: less_induct)
  case less
  from recurring obtain m where m: "k \<le> m" "ok E m" by auto
  from m less.prems show ?case
  proof (induction "m - k" arbitrary: k data)
    case 0
    then have okk: "ok E k" by simp
    from step_loop_cases [of I N tb rd "put", OF put_ok 0(4), of 0 tstart E k] 0(5)
    consider d' k' where "step_loop E rd put (enumerate 0 [tstart..<tb]) data k = Inr (d', k')"
      | tt' d' k' where "step_loop E rd put (enumerate 0 [tstart..<tb]) data k = Inl (tt', d', k')"
          "I d'" "tstart \<le> tt'" "tt' < tb" "tt' = tstart \<longrightarrow> \<not> ok E k \<and> k' = Suc k"
      by auto
    then show ?case
    proof cases
      case 1
      then show ?thesis by (subst get_step.simps) simp
    next
      case 2
      with okk have "tstart < tt'" by (cases "tt' = tstart") auto
      then have "\<exists>r. get_step E rd put tb d' tt' k' = Some r"
        using 2 0(5) by (intro less.hyps) auto
      with 2(1) show ?thesis by (subst get_step.simps) simp
    qed
  next
    case (Suc n)
    from step_loop_cases [of I N tb rd "put", OF put_ok Suc(5), of 0 tstart E k] Suc(6)
    consider d' k' where "step_loop E rd put (enumerate 0 [tstart..<tb]) data k = Inr (d', k')"
      | tt' d' k' where "step_loop E rd put (enumerate 0 [tstart..<tb]) data k = Inl (tt', d', k')"
          "I d'" "tstart \<le> tt'" "tt' < tb" "tt' = tstart \<longrightarrow> \<not> ok E k \<and> k' = Suc k"
      by auto
    then show ?case
    proof cases
      case 1
      then show ?thesis by (subst get_step.simps) simp
    next
      case 2
      have "\<exists>r. get_step E rd put tb d' tt' k' = Some r"
      proof (cases "tt' = tstart")
        case False
        with 2 have "tstart < tt'" by simp
        then show ?thesis using 2 Suc(6) by (intro less.hyps) auto
      next
        case True
        with 2 have nk: "\<not> ok E k" "k' = Suc k" by auto
        with Suc(3,4) have "k \<noteq> m" by auto
        with Suc(3) have "Suc k \<le> m" by simp
        moreover have "n = m - Suc k" using Suc(2) by simp
        ultimately show ?thesis
          using Suc(1) [of "Suc k" d'] Suc(4) 2(2) Suc(6) True nk by simp
      qed
      with 2(1) show ?thesis by (subst get_step.simps) simp
    qed
  qed
qed

lemma get_step_Some_ok:
  "get_step E rd put tb data tstart k = Some r \<Longrightarrow> tstart < tb \<Longrightarrow> \<exists>n\<ge>k. ok E n"
proof (induction rule: get_step.raw_induct [rotated 1, consumes 1])
  case (1 get_step E rd put tb data tstart k r)
  show ?case
  proof (cases "ok E k")
    case True
    then show ?thesis by auto
  next
    case False
    from 1(3) have l: "enumerate 0 [tstart..<tb] = (0, tstart) # enumerate (Suc 0) [Suc tstart..<tb]"
      by (simp add: upt_conv_Cons)
    from 1(2) False have "get_step E rd put tb data tstart (Suc k) = Some r"
      unfolding l by simp
    from 1(1) [OF this 1(3)] show ?thesis by (meson Suc_leD)
  qed
qed

lemma get_step_never:
  "\<forall>n\<ge>k. \<not> ok E n \<Longrightarrow> tstart < tb \<Longrightarrow> get_step E rd put tb data tstart k = None"
  using get_step_Some_ok [of E rd "put" tb data tstart k]
  by (cases "get_step E rd put tb data tstart k") auto

lemma map_const_replicate:
  "(\<And>x. x \<in> set xs \<Longrightarrow> g x = c) \<Longrightarrow> map g xs = replicate (length xs) c"
  by (induction xs) auto

lemma length_slice: "b \<le> length xs \<Longrightarrow> length (slice a b xs) = b - a"
  by (simp add: slice_def)

lemma set_slice: "set (slice a b xs) \<subseteq> set xs"
  unfolding slice_def by (meson set_take_subset set_drop_subset subset_trans)

lemma slice2_shape:
  assumes "plane_fits self p"
  shows "map length (slice2 (y1 self) (y2 self) (x1 self) (x2 self) p)
           = replicate (y2 self - y1 self) (x2 self - x1 self)"
proof -
  have rows: "\<And>r. r \<in> set (slice (y1 self) (y2 self) p) \<Longrightarrow>
                length (slice (x1 self) (x2 self) r) = x2 self - x1 self"
  proof -
    fix r assume "r \<in> set (slice (y1 self) (y2 self) p)"
    then have "r \<in> set p" using set_slice [of "y1 self" "y2 self" p] by auto
    with assms have "x2 self \<le> length r" by (auto simp: plane_fits_def list_all_iff)
    then show "length (slice (x1 self) (x2 self) r) = x2 self - x1 self" by (rule length_slice)
  qed
  have "length (slice (y1 self) (y2 self) p) = y2 self - y1 self"
    using assms by (simp add: plane_fits_def length_slice)
  with map_const_replicate [of "slice (y1 self) (y2 self) p"
      "\<lambda>r. length (slice (x1 self) (x2 self) r)" "x2 self - x1 self"] rows
  show ?thesis by (simp add: slice2_def comp_def)
qed

lemma slice3_shape:
  assumes "z2 self \<le> length c" and "list_all (plane_fits self) c"
  shows "map (map length) (slice3 (z1 self) (z2 self) (y1 self) (y2 self) (x1 self) (x2 self) c)
           = replicate (z2 self - z1 self) (replicate (y2 self - y1 self) (x2 self - x1 self))"
proof -
  have planes: "\<And>p. p \<in> set (slice (z1 self) (z2 self) c) \<Longrightarrow>
      map length (slice2 (y1 self) (y2 self) (x1 self) (x2 self) p)
        = replicate (y2 self - y1 self) (x2 self - x1 self)"
  proof -
    fix p assume "p \<in> set (slice (z1 self) (z2 self) c)"
    then have "p \<in> set c" using set_slice [of "z1 self" "z2 self" c] by auto
    with assms(2) have "plane_fits self p" by (simp add: list_all_iff)
    then show "map length (slice2 (y1 self) (y2 self) (x1 self) (x2 self) p)
        = replicate (y2 self - y1 self) (x2 self - x1 self)" by (rule slice2_shape)
  qed
  have "length (slice (z1 self) (z2 self) c) = z2 self - z1 self"
    using assms(1) by (rule length_slice)
  with map_const_replicate [of "slice (z1 self) (z2 self) c"
      "\<lambda>p. map length (slice2 (y1 self) (y2 self) (x1 self) (x2 self) p)"
      "replicate (y2 self - y1 self) (x2 self - x1 self)"] planes
  show ?thesis by (simp add: slice3_def comp_def)
qed

lemma put3_ok:
  assumes v: "tb \<le> length v" "list_all (plane_fits self) v"
    and inv: "length data = N \<and> (\<forall>row \<in> set data. map length row
                 = replicate (y2 self - y1 self) (x2 self - x1 self))"
    and "ii < N" "tt < tb"
  shows "\<exists>x data'. read3 self v tt = Some x \<and> put3 data ii x = Some data' \<and>
           (length data' = N \<and> (\<forall>row \<in> set data'. map length row
                 = replicate (y2 self - y1 self) (x2 self - x1 self)))"
proof -
  let ?x = "slice2 (y1 self) (y2 self) (x1 self) (x2 self) (v ! tt)"
  have tt: "tt < length v" using assms by simp
  then have "plane_fits self (v ! tt)" using v(2) by (simp add: list_all_length)
  then have sx: "map length ?x = replicate (y2 self - y1 self) (x2 self - x1 self)"
    by (rule slice2_shape)
  have rd: "read3 self v tt = Some ?x" using tt by (simp add: read3_def)
  have "data ! ii \<in> set data" using inv \<open>ii < N\<close> by simp
  with inv sx have "map length ?x = map length (data ! ii)" by simp
  then have pt: "put3 data ii ?x = Some (data[ii := ?x])"
    using inv \<open>ii < N\<close> by (simp add: put3_def)
  have "\<forall>row \<in> set (data[ii := ?x]). map length row
          = replicate (y2 self - y1 self) (x2 self - x1 self)"
    using inv sx set_update_subset_insert [of data ii ?x] by blast
  with rd pt inv show ?thesis by simp
qed

lemma put4_ok:
  assumes v: "tb \<le> length v"
      "list_all (\<lambda>c. z2 self \<le> length c \<and> list_all (plane_fits self) c) v"
    and inv: "length data = N \<and> (\<forall>row \<in> set data. map (map length) row
                 = replicate (z2 self - z1 self) (replicate (y2 self - y1 self) (x2 self - x1 self)))"
    and "ii < N" "tt < tb"
  shows "\<exists>x data'. read4 self v tt = Some x \<and> put4 data ii x = Some data' \<and>
           (length data' = N \<and> (\<forall>row \<in> set data'. map (map length) row
                 = replicate (z2 self - z1 self) (replicate (y2 self - y1 self) (x2 self - x1 self))))"
proof -
  let ?x = "slice3 (z1 self) (z2 self) (y1 self) (y2 self) (x1 self) (x2 self) (v ! tt)"
  have tt: "tt < length v" using assms by simp
  then have "z2 self \<le> length (v ! tt) \<and> list_all (plane_fits self) (v ! tt)"
    using v(2) by (simp add: list_all_length)
  then have sx: "map (map length) ?x
      = replicate (z2 self - z1 self) (replicate (y2 self - y1 self) (x2 self - x1 self))"
    using slice3_shape by blast
  have rd: "read4 self v tt = Some ?x" using tt by (simp add: read4_def)
  have "data ! ii \<in> set data" using inv \<open>ii < N\<close> by simp
  with inv sx have "map (map length) ?x = map (map length) (data ! ii)" by simp
  then have pt: "put4 data ii ?x = Some (data[ii := ?x])"
    using inv \<open>ii < N\<close> by (simp add: put4_def)
  have "\<forall>row \<in> set (data[ii := ?x]). map (map length) row
      = replicate (z2 self - z1 self) (replicate (y2 self - y1 self) (x2 self - x1 self))"
    using inv sx set_update_subset_insert [of data ii ?x] by blast
  with rd pt inv show ?thesis by simp
qed

lemma get_3d_step_returns:
  assumes "\<forall>n. \<exists>m\<ge>n. ok E m" and "fits self (A3 v) ta tb"
  shows "\<exists>data. zeros3 (nt self) (ny self) (nx self) = Inr data \<and>
           (\<exists>r. get_3d_step E self v tb data ta k = Some r)"
proof -
  let ?N = "nat (nt self)"
  let ?data = "replicate ?N (replicate (y2 self - y1 self) (replicate (x2 self - x1 self) (0::real)))"
  let ?I = "\<lambda>data. length data = ?N \<and> (\<forall>row \<in> set data. map length row
                 = replicate (y2 self - y1 self) (x2 self - x1 self))"
  from assms(2) have f: "x1 self \<le> x2 self" "y1 self \<le> y2 self"
      "nx self = int (x2 self) - int (x1 self)" "ny self = int (y2 self) - int (y1 self)"
      "tb \<le> length v" "int tb - int ta \<le> nt self" "0 \<le> nt self" "list_all (plane_fits self) v"
    by (simp_all add: fits_def)
  have z: "zeros3 (nt self) (ny self) (nx self) = Inr ?data"
    using f by (simp add: zeros3_def nat_diff_distrib')
  have I: "?I ?data" by simp
  have N: "tb - ta \<le> ?N" using f by linarith
  have "\<exists>r. get_step E (read3 self v) put3 tb ?data ta k = Some r"
    by (rule get_step_returns [where I = ?I and N = ?N, OF put3_ok [OF f(5) f(8)] assms(1) I N])
  with z show ?thesis by (simp add: get_3d_step_def)
qed

lemma get_4d_step_returns:
  assumes "\<forall>n. \<exists>m\<ge>n. ok E m" and "fits self (A4 v) ta tb"
  shows "\<exists>data. zeros4 (nt self) (nz self) (ny self) (nx self) = Inr data \<and>
           (\<exists>r. get_4d_step E self v tb data ta k = Some r)"
proof -
  let ?N = "nat (nt self)"
  let ?data = "replicate ?N (replicate (z2 self - z1 self)
                 (replicate (y2 self - y1 self) (replicate (x2 self - x1 self) (0::real))))"
  let ?I = "\<lambda>data. length data = ?N \<and> (\<forall>row \<in> set data. map (map length) row
         = replicate (z2 self - z1 self) (replicate (y2 self - y1 self) (x2 self - x1 self)))"
  from assms(2) have f: "x1 self \<le> x2 self" "y1 self \<le> y2 self" "z1 self \<le> z2 self"
      "nx self = int (x2 self) - int (x1 self)" "ny self = int (y2 self) - int (y1 self)"
      "nz self = int (z2 self) - int (z1 self)"
      "tb \<le> length v" "int tb - int ta \<le> nt self" "0 \<le> nt self"
      "list_all (\<lambda>c. z2 self \<le> length c \<and> list_all (plane_fits self) c) v"
    by (simp_all add: fits_def)
  have z: "zeros4 (nt self) (nz self) (ny self) (nx self) = Inr ?data"
    using f by (simp add: zeros4_def nat_diff_distrib')
  have I: "?I ?data" by simp
  have N: "tb - ta \<le> ?N" using f by linarith
  have "\<exists>r. get_step E (read4 self v) put4 tb ?data ta k = Some r"
    by (rule get_step_returns [where I = ?I and N = ?N, OF put4_ok [OF f(7) f(10)] assms(1) I N])
  with z show ?thesis by (simp add: get_4d_step_def)
qed

lemma zeros3_fits:
  "fits self var ta tb \<Longrightarrow> 0 \<le> a \<Longrightarrow> \<exists>data. zeros3 a (ny self) (nx self) = Inr data"
  by (simp add: fits_def zeros3_def)

lemma zeros4_fits:
  "fits self (A4 v) ta tb \<Longrightarrow> \<exists>data. zeros4 (nt self) (nz self) (ny self) (nx self) = Inr data"
  by (simp add: fits_def zeros4_def)

lemma get_data_singlefile_returns:
  assumes var: "variables f vn = Some var" and fit: "fits self var ta tb"
    and rec: "\<forall>n. \<exists>m\<ge>n. ok E m"
  shows "\<exists>d s k'. get_data_singlefile E self vn f ta tb k = Some (Inr (d, s, k'))"
proof (cases var)
  case (A1 v)
  with fit show ?thesis by (simp add: fits_def)
next
  case (A2 v)
  from zeros3_fits [OF fit, of 1] obtain data where z: "zeros3 1 (ny self) (nx self) = Inr data"
    by auto
  from rec obtain m where "k \<le> m" "ok E m" by auto
  from get_2d_returns [OF this(2,1)] obtain k' where
    "get_2d E self v k = Some (slice2 (y1 self) (y2 self) (x1 self) (x2 self) v, k')" by blast
  with var A2 z show ?thesis by (simp add: get_data_singlefile_def)
next
  case (A3 v)
  show ?thesis
  proof (cases "graball self \<and> ok E k")
    case True
    with var A3 show ?thesis by (simp add: get_data_singlefile_def)
  next
    case False
    from get_3d_step_returns [OF rec fit [unfolded A3]] obtain data r where
      "zeros3 (nt self) (ny self) (nx self) = Inr data"
      "get_3d_step E self v tb data ta (if graball self then Suc k else k) = Some r"
      by blast
    with var A3 False show ?thesis
      by (cases r) (simp add: get_data_singlefile_def)
  qed
next
  case (A4 v)
  from fit A4 obtain zs where zs: "Z self = Some zs" by (auto simp: fits_def)
  show ?thesis
  proof (cases "graball self \<and> ok E k")
    case True
    with var A4 zs show ?thesis by (simp add: get_data_singlefile_def)
  next
    case False
    from get_4d_step_returns [OF rec fit [unfolded A4]] obtain data r where
      "zeros4 (nt self) (nz self) (ny self) (nx self) = Inr data"
      "get_4d_step E self v tb data ta (if graball self then Suc k else k) = Some r"
      by blast
    with var A4 zs False show ?thesis
      by (cases r; cases "graball self") (simp_all add: get_data_singlefile_def Let_def)
  qed
qed

lemma get_data_singlefile_never:
  assumes var: "variables f vn = Some var" and fit: "fits self var ta tb"
    and down: "\<forall>n\<ge>k. \<not> ok E n" and some: "ndim var = 2 \<or> ta < tb"
  shows "get_data_singlefile E self vn f ta tb k = None"
proof (cases var)
  case (A1 v)
  with fit show ?thesis by (simp add: fits_def)
next
  case (A2 v)
  from zeros3_fits [OF fit, of 1] obtain data where z: "zeros3 1 (ny self) (nx self) = Inr data"
    by auto
  with var A2 get_2d_never [OF down] show ?thesis by (simp add: get_data_singlefile_def)
next
  case (A3 v)
  with some have lt: "ta < tb" by simp
  from fit A3 have "0 \<le> nt self" by (simp add: fits_def)
  from zeros3_fits [OF fit this] obtain data where z: "zeros3 (nt self) (ny self) (nx self) = Inr data"
    by auto
  have nk: "\<not> ok E k" using down by simp
  have d: "\<forall>n\<ge>(if graball self then Suc k else k). \<not> ok E n" using down by simp
  have "get_3d_step E self v tb data ta (if graball self then Suc k else k) = None"
    unfolding get_3d_step_def by (rule get_step_never [OF d lt])
  with var A3 z nk show ?thesis by (simp add: get_data_singlefile_def)
next
  case (A4 v)
  with some have lt: "ta < tb" by simp
  from fit A4 obtain zs where zs: "Z self = Some zs" by (auto simp: fits_def)
  from zeros4_fits [OF fit [unfolded A4]] obtain data where
    z: "zeros4 (nt self) (nz self) (ny self) (nx self) = Inr data" by auto
  have nk: "\<not> ok E k" using down by simp
  have d: "\<forall>n\<ge>(if graball self then Suc k else k). \<not> ok E n" using down by simp
  have "get_4d_step E self v tb data ta (if graball self then Suc k else k) = None"
    unfolding get_4d_step_def by (rule get_step_never [OF d lt])
  with var A4 zs z nk show ?thesis by (simp add: get_data_singlefile_def)
qed

text \<open>
  The retries of a retrieval from one file.  The variable is in the file and the window
  fits it.  On a connection where requests keep succeeding from time to time,
  \<^verbatim>\<open>get_data_singlefile\<close> returns an array and no exception, whatever requests failed
  before; on a connection where every request from \<open>k\<close> on fails it does not return (for a
  2-D variable, and for a window with a record to read).  \<^verbatim>\<open>openfile\<close> returns the file as
  soon as one request succeeds and does not return when every request fails.
\<close>

lemma transport_failures_are_retried:
  assumes var: "variables f vn = Some var" and fit: "fits self var ta tb"
  shows "((\<forall>n. \<exists>m\<ge>n. ok E m) \<longrightarrow>
            (\<exists>d s k'. get_data_singlefile E self vn f ta tb k = Some (Inr (d, s, k')))) \<and>
         ((\<forall>n\<ge>k. \<not> ok E' n) \<and> (ndim var = 2 \<or> ta < tb) \<longrightarrow>
            get_data_singlefile E' self vn f ta tb k = None) \<and>
         (world E ff = Some g \<and> (\<exists>n\<ge>k. ok E n) \<longrightarrow> (\<exists>k'. openfile E ff k = Some (g, k'))) \<and>
         ((\<forall>n\<ge>k. \<not> ok E' n) \<longrightarrow> openfile E' ff k = None)"
  using get_data_singlefile_returns [OF var fit, of E k]
    get_data_singlefile_never [OF var fit, of k E']
    openfile_returns [of E ff g _ k] openfile_never [of k E' ff]
  by blast

lemma transport_failures_are_retried_example:
  "(\<exists>d s k'. get_data_singlefile env_flaky dap3w ''temp'' file3 0 3 0 = Some (Inr (d, s, k'))) \<and>
   get_data_singlefile env_down dap3w ''temp'' file3 0 3 0 = None \<and>
   (\<exists>k'. openfile env_flaky ''a.nc'' 0 = Some (fileA, k')) \<and>
   openfile env_down ''a.nc'' 0 = None"
proof -
  have var: "variables file3 ''temp'' = Some (A3 [[[1]], [[2]], [[3]]])"
    by (simp add: file3_def)
  have fit: "fits dap3w (A3 [[[1]], [[2]], [[3]]]) 0 3"
    by (simp add: fits_def plane_fits_def dap3w_def dap3_def)
  have rec: "\<forall>n. \<exists>m\<ge>n. ok env_flaky m"
  proof
    fix n show "\<exists>m\<ge>n. ok env_flaky m"
      by (rule exI [of _ "n + 3"]) (simp add: env_flaky_def)
  qed
  then have one: "\<exists>n\<ge>0. ok env_flaky n" by blast
  have down: "\<forall>n\<ge>0. \<not> ok env_down n" by (simp add: env_down_def)
  have w: "world env_flaky ''a.nc'' = Some fileA" by (simp add: env_flaky_def env_ab_def)
  from transport_failures_are_retried [OF var fit, of env_flaky 0 env_down "''a.nc''" fileA]
    rec one down w
  show ?thesis by simp
qed

subsection \<open>Appending to the output store\<close>

lemma write_coord_frame:
  "write_coord n a s = Inr s' \<Longrightarrow> written s' = written s \<and> (\<forall>m. m \<noteq> n \<longrightarrow> vars s' m = vars s m)"
  by (auto simp: write_coord_def split: option.splits ncvar.splits if_splits)

lemma take_slice: "c \<le> b \<Longrightarrow> take (c - a) (slice a b xs) = slice a c xs"
  by (simp add: slice_def min_def)

lemma drop_slice: "a \<le> e \<Longrightarrow> drop (e - a) (slice a b xs) = slice e b xs"
  by (simp add: slice_def drop_take)

lemma slice_append: "a \<le> c \<Longrightarrow> c \<le> e \<Longrightarrow> slice a c xs @ slice c e xs = slice a e xs"
proof -
  assume a: "a \<le> c" "c \<le> e"
  have "take ((c - a) + (e - c)) (drop a xs)
          = take (c - a) (drop a xs) @ take (e - c) (drop (c - a) (drop a xs))"
    by (rule take_add)
  with a show ?thesis by (simp add: slice_def)
qed

lemma nth_slice: "a + j < b \<Longrightarrow> b \<le> length xs \<Longrightarrow> slice a b xs ! j = xs ! (a + j)"
  by (simp add: slice_def)

lemma distinct_slice: "distinct xs \<Longrightarrow> distinct (slice a b xs)"
  by (simp add: slice_def)

lemma length_slice_le: "b \<le> length xs \<Longrightarrow> length (slice a b xs) = b - a"
  by (simp add: slice_def)

lemma write_time_var_found:
  assumes "vars s tc = Some (VTime lt)" and "tout \<noteq> []"
    and "date2index E (hd tout) lt = Some i" and "i \<le> length lt"
  shows "write_time_var E tout (Some tc) s =
           Inr (if length lt < i + length tout
                then s\<lparr>vars := (vars s)(tc \<mapsto> VTime (take i lt @ tout))\<rparr> else s,
                (i, i + length tout))"
proof -
  obtain t0 tr where t0: "tout = t0 # tr" using assms(2) by (cases tout) auto
  show ?thesis
    using assms by (simp add: write_time_var_def hasvar_def t0 ebind_def assign_slice_def Let_def)
qed

lemma records_length: "records n data = Inr rs \<Longrightarrow> length rs = n"
  by (cases data) (auto split: if_splits)

lemma write_rows_at:
  assumes "vars s name = Some (VData old)" and "records n data = Inr rs"
    and "i \<le> length old"
  shows "write_rows name (i, i + n) data s =
           Inr (s\<lparr>vars := (vars s)(name \<mapsto> VData (take i old @ map Some rs @ drop (i + n) old)),
                  written := written s @ map (Pair name) [i..<i + n]\<rparr>)"
  using assms records_length [OF assms(2)]
  by (simp add: write_rows_def ebind_def assign_slice_def)

lemma coords_frame:
  assumes c1: "write_coord xc ax s = Inr sa" and c2: "write_coord yc ay sa = Inr sb"
    and c3: "(case zc of None \<Rightarrow> Inr sb | Some z \<Rightarrow> write_coord z az sb) = Inr sc"
    and n: "m \<noteq> xc" "m \<noteq> yc" "zc \<noteq> Some m"
  shows "vars sc m = vars s m \<and> written sc = written s"
proof -
  have a: "vars sa m = vars s m \<and> written sa = written s"
    using write_coord_frame [OF c1] n by simp
  have b: "vars sb m = vars sa m \<and> written sb = written sa"
    using write_coord_frame [OF c2] n by simp
  have c: "vars sc m = vars sb m \<and> written sc = written sb"
  proof (cases zc)
    case None
    with c3 show ?thesis by simp
  next
    case (Some z)
    with c3 have "write_coord z az sb = Inr sc" by simp
    from write_coord_frame [OF this] n Some show ?thesis by auto
  qed
  from a b c show ?thesis by simp
qed

text \<open>
  C1, as the code has it.  The store holds the window \<open>a..<b\<close> of a time axis without
  repeated timestamps, with one record for each timestamp; \<^verbatim>\<open>write_var\<close> is called for the
  window \<open>c..<e\<close> of the same axis, which starts inside the stored one, and \<^verbatim>\<open>date2index\<close>
  finds its first timestamp.  Then the data are written at the stored position of that
  timestamp: afterwards the stored axis is the window \<open>a..<max b e\<close>, each timestamp once,
  row \<open>j\<close> of the variable holds the record of timestamp \<open>j\<close>, the records of the new window
  being those of this call (\<open>D'\<close>), and the call has written each row of its window once,
  the rows of the overlap included.
\<close>

theorem write_var_overlapping_window:
  assumes call: "write_var E self var data = Inr self'"
    and obj: "remote self var = Some rv" "dap self var = Some d"
      "coord_names self rv = Some (Some tc, xc, yc, zc)"
    and names: "tc \<noteq> rv" "tc \<noteq> xc" "tc \<noteq> yc" "zc \<noteq> Some tc" "rv \<noteq> xc" "rv \<noteq> yc" "zc \<noteq> Some rv"
    and st: "outnc self = Some s" "vars s tc = Some (VTime (slice a b ax))"
      "vars s rv = Some (VData (map (\<lambda>t. Some (D t)) (slice a b ax)))"
    and win: "localtime d = slice c e ax" "a \<le> c" "c < b" "c < e" "b \<le> length ax"
      "e \<le> length ax" "distinct ax"
    and dat: "records (e - c) data = Inr (map D' (slice c e ax))"
    and exact: "\<forall>t ts i. date2index E t ts = Some i \<longrightarrow> i < length ts \<and> ts ! i = t"
    and found: "date2index E (ax ! c) (slice a b ax) \<noteq> None"
  shows "\<exists>s'. outnc self' = Some s' \<and> tindex self' = (c - a, e - a) \<and>
           vars s' tc = Some (VTime (slice a (max b e) ax)) \<and>
           distinct (slice a (max b e) ax) \<and>
           vars s' rv = Some (VData (map (\<lambda>t. Some (if t \<in> set (slice c e ax) then D' t else D t))
                                       (slice a (max b e) ax))) \<and>
           written s' = written s @ map (Pair rv) [c - a..<e - a]"
proof -
  let ?lt = "slice a b ax" and ?tout = "slice c e ax"
  from call obj st obtain s1 s2 s3 s4 ti s5 where
    c1: "write_coord xc (localX d) s = Inr s1" and
    c2: "write_coord yc (localY d) s1 = Inr s2" and
    c3: "(case zc of None \<Rightarrow> Inr s2 | Some z \<Rightarrow> write_coord z (A1 (localZ d)) s2) = Inr s3" and
    wt: "write_time_var E (localtime d) (Some tc) s3 = Inr (s4, ti)" and
    wr: "write_rows rv ti data s4 = Inr s5" and
    res: "self' = self\<lparr>outnc := Some s5, tindex := ti\<rparr>"
    by (auto simp: write_var_def ebind_def split: sum.splits prod.splits)
  have ft: "vars s3 tc = vars s tc \<and> written s3 = written s"
    by (rule coords_frame [OF c1 c2 c3]) (use names in auto)
  have fr: "vars s3 rv = vars s rv \<and> written s3 = written s"
    by (rule coords_frame [OF c1 c2 c3]) (use names in auto)
  have len_lt: "length ?lt = b - a" using win by (simp add: length_slice_le)
  have len_to: "length ?tout = e - c" using win by (simp add: length_slice_le)
  have ne: "?tout \<noteq> []" using len_to win by auto
  have hd: "hd ?tout = ax ! c"
    using nth_slice [of c 0 e ax] ne win by (simp add: hd_conv_nth)
  from found obtain i where i: "date2index E (ax ! c) ?lt = Some i" by auto
  with exact have ii: "i < length ?lt" "?lt ! i = ax ! c" by auto
  have "?lt ! i = ax ! (a + i)" using ii len_lt win by (intro nth_slice) auto
  with ii have "ax ! (a + i) = ax ! c" by simp
  moreover have "a + i < length ax" "c < length ax" using ii len_lt win by auto
  ultimately have "a + i = c" using win(7) by (simp add: nth_eq_iff_index_eq)
  then have i_eq: "i = c - a" by simp
  have tv: "write_time_var E ?tout (Some tc) s3 =
           Inr (if length ?lt < i + length ?tout
                then s3\<lparr>vars := (vars s3)(tc \<mapsto> VTime (take i ?lt @ ?tout))\<rparr> else s3,
                (i, i + length ?tout))"
    by (rule write_time_var_found) (use ft st ne hd i ii in auto)
  have ti: "ti = (c - a, e - a)" using tv wt win i_eq len_to by auto
  have time': "vars s4 tc = Some (VTime (slice a (max b e) ax))"
  proof (cases "b < e")
    case True
    then have "take i ?lt @ ?tout = slice a e ax"
      using win i_eq by (simp add: take_slice slice_append)
    moreover have "length ?lt < i + length ?tout" using True win i_eq len_lt len_to by auto
    ultimately show ?thesis using tv wt True win(1) by (auto simp: max_def)
  next
    case False
    then have "\<not> length ?lt < i + length ?tout" using win i_eq len_lt len_to by auto
    with tv wt win(1) have "s4 = s3" by auto
    with ft st False show ?thesis by (simp add: max_def)
  qed
  have s4rv: "vars s4 rv = vars s rv \<and> written s4 = written s"
    using tv wt fr names win(1) by (auto split: if_splits)
  let ?old = "map (\<lambda>t. Some (D t)) ?lt"
  have wr': "write_rows rv (c - a, (c - a) + (e - c)) data s4 =
           Inr (s4\<lparr>vars := (vars s4)(rv \<mapsto> VData (take (c - a) ?old @ map Some (map D' ?tout)
                        @ drop ((c - a) + (e - c)) ?old)),
                  written := written s4 @ map (Pair rv) [c - a..<(c - a) + (e - c)]\<rparr>)"
    by (rule write_rows_at) (use s4rv st dat len_to len_lt win in auto)
  have ea: "(c - a) + (e - c) = e - a" using win by simp
  have s5: "s5 = s4\<lparr>vars := (vars s4)(rv \<mapsto> VData (take (c - a) ?old @ map Some (map D' ?tout)
                        @ drop (e - a) ?old)),
                  written := written s4 @ map (Pair rv) [c - a..<e - a]\<rparr>"
    using wr wr' ti ea by simp
  have dist: "distinct (slice a (max b e) ax)" using win by (simp add: distinct_slice)
  have split3: "slice a (max b e) ax = slice a c ax @ ?tout @ slice e (max b e) ax"
    using win by (simp add: slice_append)
  have rows: "take (c - a) ?old @ map Some (map D' ?tout) @ drop (e - a) ?old
      = map (\<lambda>t. Some (if t \<in> set ?tout then D' t else D t)) (slice a (max b e) ax)"
  proof -
    have p1: "take (c - a) ?old = map (\<lambda>t. Some (D t)) (slice a c ax)"
      using win by (simp add: take_map take_slice)
    have p3: "drop (e - a) ?old = map (\<lambda>t. Some (D t)) (slice e (max b e) ax)"
    proof (cases "b < e")
      case True
      then show ?thesis using win len_lt by (simp add: max_def slice_def)
    next
      case False
      then show ?thesis using win by (simp add: drop_map drop_slice max_def)
    qed
    from dist split3 have dj: "set (slice a c ax) \<inter> set ?tout = {}"
      "set (slice e (max b e) ax) \<inter> set ?tout = {}" by auto
    have q1: "map (\<lambda>t. Some (D t)) (slice a c ax)
        = map (\<lambda>t. Some (if t \<in> set ?tout then D' t else D t)) (slice a c ax)"
      using dj by (intro map_cong) auto
    have q3: "map (\<lambda>t. Some (D t)) (slice e (max b e) ax)
        = map (\<lambda>t. Some (if t \<in> set ?tout then D' t else D t)) (slice e (max b e) ax)"
      using dj by (intro map_cong) auto
    have q2: "map Some (map D' ?tout)
        = map (\<lambda>t. Some (if t \<in> set ?tout then D' t else D t)) ?tout"
      by simp
    show ?thesis unfolding p1 p3 q1 q2 q3 by (subst split3) simp
  qed
  have "vars s5 tc = Some (VTime (slice a (max b e) ax))"
    using s5 time' names by simp
  moreover have "vars s5 rv = Some (VData (map (\<lambda>t. Some (if t \<in> set ?tout then D' t else D t))
                                       (slice a (max b e) ax)))"
    using s5 rows by simp
  moreover have "written s5 = written s @ map (Pair rv) [c - a..<e - a]"
    using s5 s4rv by simp
  ultimately show ?thesis using res ti dist by simp
qed

text \<open>
  C1, as stated, fails: after the calls for the time ranges 0 to 3 and 2 to 5 the row of
  timestamp 2 has been written twice.
\<close>

theorem rows_written_twice:
  "map_option written (final_store two_calls)
     = Some [(''temp'', 0), (''temp'', 1), (''temp'', 2), (''temp'', 2), (''temp'', 3), (''temp'', 4)]"
  by code_simp

theorem write_var_overlapping_window_witness:
  "\<exists>self' s'. write_var env_ok getdapA1 ''temp'' (A3 [[[12]], [[13]], [[14]]]) = Inr self' \<and>
     outnc self' = Some s' \<and> tindex self' = (2, 5) \<and>
     vars s' ''time'' = Some (VTime [0, 1, 2, 3, 4]) \<and>
     vars s' ''temp'' = Some (VData [Some (A2 [[10]]), Some (A2 [[11]]), Some (A2 [[12]]),
                                     Some (A2 [[13]]), Some (A2 [[14]])]) \<and>
     written s' = [(''temp'', 0), (''temp'', 1), (''temp'', 2),
                   (''temp'', 2), (''temp'', 3), (''temp'', 4)]"
proof -
  let ?ax = "[0, 1, 2, 3, 4, 5] :: datetime list"
  let ?D = "\<lambda>t :: datetime. A2 [[real_of_int t + 10]]"
  let ?d = "dapA\<lparr>localtime := [2, 3, 4], localXY := Grid1 [0] [0]\<rparr>"
  have "\<exists>self'. write_var env_ok getdapA1 ''temp'' (A3 [[[12]], [[13]], [[14]]]) = Inr self'"
    by (simp add: write_var_def getdapA1_def getdapA_def storeA_def dapA_def dap3_def
        write_coord_def localX_def localY_def write_time_var_def hasvar_def env_ok_def
        exact_index_def argwhere_def write_rows_def ebind_def assign_slice_def)
  then obtain self' where
    call: "write_var env_ok getdapA1 ''temp'' (A3 [[[12]], [[13]], [[14]]]) = Inr self'" ..
  have ex: "\<forall>t ts i. date2index env_ok t ts = Some i \<longrightarrow> i < length ts \<and> ts ! i = t"
    using exact_index_exact by (simp add: env_ok_def)
  have found: "date2index env_ok (?ax ! 2) (slice 0 3 ?ax) \<noteq> None"
    by (simp add: env_ok_def exact_index_def argwhere_def slice_def)
  have "\<exists>s'. outnc self' = Some s' \<and> tindex self' = (2 - 0, 5 - 0) \<and>
           vars s' ''time'' = Some (VTime (slice 0 (max 3 5) ?ax)) \<and>
           distinct (slice 0 (max 3 5) ?ax) \<and>
           vars s' ''temp'' = Some (VData (map (\<lambda>t. Some (if t \<in> set (slice 2 5 ?ax) then ?D t else ?D t))
                                       (slice 0 (max 3 5) ?ax))) \<and>
           written s' = written storeA @ map (Pair ''temp'') [2 - 0..<5 - 0]"
  proof (rule write_var_overlapping_window [OF call, where d = ?d and xc = "''lon''"
        and yc = "''lat''" and zc = None and D = ?D and D' = ?D])
    show "remote getdapA1 ''temp'' = Some ''temp''" by (simp add: getdapA1_def getdapA_def)
    show "dap getdapA1 ''temp'' = Some ?d" by (simp add: getdapA1_def)
    show "coord_names getdapA1 ''temp'' = Some (Some ''time'', ''lon'', ''lat'', None)"
      by (simp add: getdapA1_def getdapA_def)
    show "outnc getdapA1 = Some storeA" by (simp add: getdapA1_def)
    show "vars storeA ''time'' = Some (VTime (slice 0 3 ?ax))"
      by (simp add: storeA_def slice_def)
    show "vars storeA ''temp'' = Some (VData (map (\<lambda>t. Some (?D t)) (slice 0 3 ?ax)))"
      by (simp add: storeA_def slice_def)
    show "localtime ?d = slice 2 5 ?ax" by (simp add: slice_def)
    show "records (5 - 2) (A3 [[[12]], [[13]], [[14]]]) = Inr (map ?D (slice 2 5 ?ax))"
      by (simp add: slice_def)
    show "\<forall>t ts i. date2index env_ok t ts = Some i \<longrightarrow> i < length ts \<and> ts ! i = t" by (rule ex)
    show "date2index env_ok (?ax ! 2) (slice 0 3 ?ax) \<noteq> None" by (rule found)
  qed simp_all
  then obtain s' where "outnc self' = Some s'" "tindex self' = (2, 5)"
    "vars s' ''time'' = Some (VTime [0, 1, 2, 3, 4])"
    "vars s' ''temp'' = Some (VData [Some (A2 [[10]]), Some (A2 [[11]]), Some (A2 [[12]]),
                                     Some (A2 [[13]]), Some (A2 [[14]])])"
    "written s' = [(''temp'', 0), (''temp'', 1), (''temp'', 2),
                   (''temp'', 2), (''temp'', 3), (''temp'', 4)]"
    by (auto simp: slice_def storeA_def upt_rec numeral_eq_Suc)
  with call show ?thesis by blast
qed

subsection \<open>Stitching a window over several files\<close>


























text \<open>
  C9.  A window over two files (records 3, 4 of \<^verbatim>\<open>a.nc\<close> and 0, 1 of \<^verbatim>\<open>b.nc\<close>); the first open
  request fails and is retried, the bulk read of the first file fails, and every later
  request goes through.  The fallback fills an array of \<^verbatim>\<open>self.nt\<close> = 4 rows, which does not
  fit the two rows of the block: the retrieval raises \<^verbatim>\<open>ValueError\<close> instead of returning
  data.
\<close>

theorem stitching_after_bulk_failure:
  "map_option (map_sum id fst)
     (get_data env_flaky dapAB ''temp'' None None None (Some (3, 7)) 0) = Some (Inl ValueError)"
  by code_simp

end
